theory Spec2Isabelle
  imports Main "HOL-Library.Word" "HOL-Library.Monad_Syntax"
begin

unbundle bit_operations_syntax

section \<open>Memory\<close>

text \<open>
  The allocator of \<^verbatim>\<open>mm.c\<close> works on a flat byte-addressed memory through 64-bit pointers.
  Memory is a total function from 64-bit addresses to bytes; \<^verbatim>\<open>word_t\<close> and \<^verbatim>\<open>size_t\<close> are
  64-bit words whose arithmetic wraps around. A \<^verbatim>\<open>word_t\<close> access reads or writes eight
  bytes in little-endian order. The null pointer is the address 0.
\<close>

type_synonym word_t = "64 word"
type_synonym addr = "64 word"
type_synonym memory = "addr \<Rightarrow> 8 word"

definition byte_of :: "word_t \<Rightarrow> nat \<Rightarrow> 8 word" where
  "byte_of w k = ucast (drop_bit (8 * k) w)"

definition load64 :: "memory \<Rightarrow> addr \<Rightarrow> word_t" where
  "load64 m a =
     ucast (m a) OR push_bit 8 (ucast (m (a + 1))) OR push_bit 16 (ucast (m (a + 2)))
     OR push_bit 24 (ucast (m (a + 3))) OR push_bit 32 (ucast (m (a + 4)))
     OR push_bit 40 (ucast (m (a + 5))) OR push_bit 48 (ucast (m (a + 6)))
     OR push_bit 56 (ucast (m (a + 7)))"

definition store64 :: "memory \<Rightarrow> addr \<Rightarrow> word_t \<Rightarrow> memory" where
  "store64 m a w = (\<lambda>x. if x - a < 8 then byte_of w (unat (x - a)) else m x)"

text \<open>
  Modelled from the spec: the memory-copy and memory-set primitives are external
  collaborators (\<^verbatim>\<open>bytewise_copy(dst, src, n)\<close> and \<^verbatim>\<open>bytewise_fill(dst, byte, n)\<close>);
  their code is not among the sources. After \<open>memcpy\<close> the \<open>n\<close> bytes from \<open>dst\<close> hold
  what the \<open>n\<close> bytes from \<open>src\<close> held before the call; after \<open>memset\<close> the \<open>n\<close> bytes from
  \<open>dst\<close> hold the fill byte. Every other byte is unchanged.
\<close>

definition memcpy :: "memory \<Rightarrow> addr \<Rightarrow> addr \<Rightarrow> 64 word \<Rightarrow> memory" where
  "memcpy m dst src n = (\<lambda>x. if x - dst < n then m (src + (x - dst)) else m x)"

definition memset :: "memory \<Rightarrow> addr \<Rightarrow> 8 word \<Rightarrow> 64 word \<Rightarrow> memory" where
  "memset m dst c n = (\<lambda>x. if x - dst < n then c else m x)"

section \<open>Allocator state\<close>

text \<open>
  The globals of \<^verbatim>\<open>mm.c\<close> (\<^verbatim>\<open>heap_start\<close>, \<^verbatim>\<open>size_class[NUM_CLASSES]\<close>,
  \<^verbatim>\<open>mini_block_head\<close>) together with the memory and the state of the heap-growth
  primitive: the heap's first byte, its break (one past its last byte) and the limit the
  break cannot pass.
\<close>

record mm_state =
  mem :: memory
  heap_start :: addr
  size_class :: "nat \<Rightarrow> addr"
  mini_block_head :: addr
  mem_heap :: addr
  mem_brk :: addr
  mem_max_addr :: addr

text \<open>
  Modelled from the spec: \<^verbatim>\<open>memlib.c\<close> is not among the sources. \<^verbatim>\<open>grow(n)\<close> extends the
  heap by \<open>n\<close> bytes and returns the address of the first new byte, or the error sentinel
  \<^verbatim>\<open>(void *)-1\<close> when it rejects the request; the heap never shrinks. The request is
  rejected when the increment is negative as an \<^verbatim>\<open>intptr_t\<close> or would move the break past
  the limit. \<^verbatim>\<open>heap_low()\<close> and \<^verbatim>\<open>heap_high()\<close> are the first and the last byte of the heap.
\<close>

definition mem_sbrk :: "mm_state \<Rightarrow> 64 word \<Rightarrow> mm_state \<times> addr" where
  "mem_sbrk s incr =
     (if sint incr < 0 \<or> unat (mem_max_addr s) < unat (mem_brk s) + unat incr
      then (s, - 1)
      else (s\<lparr>mem_brk := mem_brk s + incr\<rparr>, mem_brk s))"

definition mem_heap_lo :: "mm_state \<Rightarrow> addr" where
  "mem_heap_lo s = mem_heap s"

definition mem_heap_hi :: "mm_state \<Rightarrow> addr" where
  "mem_heap_hi s = mem_brk s - 1"

section \<open>Constants\<close>

definition wsize :: "64 word" where "wsize = 8"
definition dsize :: "64 word" where "dsize = 2 * wsize"
definition min_block_size :: "64 word" where "min_block_size = 2 * dsize"
definition chunksize :: "64 word" where "chunksize = push_bit 12 1"
definition alloc_mask :: word_t where "alloc_mask = 1"
definition prev_alloc_mask :: word_t where "prev_alloc_mask = 2"
definition prev_mini_mask :: word_t where "prev_mini_mask = 4"
definition size_mask :: word_t where "size_mask = NOT 15"
definition NUM_CLASSES :: nat where "NUM_CLASSES = 15"
definition mb_block_size :: "64 word" where "mb_block_size = 16"
definition mb_dsize :: "64 word" where "mb_dsize = 8"
definition MAX_SEARCH :: nat where "MAX_SEARCH = 10"
definition SIZE_MAX :: "64 word" where "SIZE_MAX = 0xFFFFFFFFFFFFFFFF"

section \<open>Short helper functions\<close>

definition max_sz :: "64 word \<Rightarrow> 64 word \<Rightarrow> 64 word" where
  "max_sz x y = (if x > y then x else y)"

definition round_up :: "64 word \<Rightarrow> 64 word \<Rightarrow> 64 word" where
  "round_up sz n = n * ((sz + (n - 1)) div n)"

definition extract_alloc :: "word_t \<Rightarrow> bool" where
  "extract_alloc word = (word AND alloc_mask \<noteq> 0)"

definition get_alloc :: "mm_state \<Rightarrow> addr \<Rightarrow> bool" where
  "get_alloc s block = extract_alloc (load64 (mem s) block)"

definition get_prev_alloc :: "mm_state \<Rightarrow> addr \<Rightarrow> bool" where
  "get_prev_alloc s block = (drop_bit 1 (load64 (mem s) block) AND 1 \<noteq> 0)"

definition clear_prev_alloc :: "mm_state \<Rightarrow> addr \<Rightarrow> mm_state" where
  "clear_prev_alloc s block =
     s\<lparr>mem := store64 (mem s) block (load64 (mem s) block AND NOT prev_alloc_mask)\<rparr>"

definition set_prev_alloc :: "mm_state \<Rightarrow> addr \<Rightarrow> mm_state" where
  "set_prev_alloc s block =
     s\<lparr>mem := store64 (mem s) block (load64 (mem s) block OR prev_alloc_mask)\<rparr>"

definition extract_size :: "word_t \<Rightarrow> 64 word" where
  "extract_size word = word AND size_mask"

definition get_size :: "mm_state \<Rightarrow> addr \<Rightarrow> 64 word" where
  "get_size s block = extract_size (load64 (mem s) block)"

definition get_mini :: "mm_state \<Rightarrow> addr \<Rightarrow> bool" where
  "get_mini s block = (get_size s block = mb_block_size)"

definition get_prev_mini :: "mm_state \<Rightarrow> addr \<Rightarrow> bool" where
  "get_prev_mini s block = (drop_bit 2 (load64 (mem s) block) AND 1 \<noteq> 0)"

definition header_to_footer :: "mm_state \<Rightarrow> addr \<Rightarrow> addr" where
  "header_to_footer s block = block + 8 + get_size s block - dsize"

definition set_prev_mini :: "mm_state \<Rightarrow> addr \<Rightarrow> mm_state" where
  "set_prev_mini s block =
     (let s1 = s\<lparr>mem := store64 (mem s) block (load64 (mem s) block OR prev_mini_mask)\<rparr>
      in if \<not> get_alloc s1 block \<and> \<not> get_mini s1 block
         then (let footer = header_to_footer s1 block
               in s1\<lparr>mem := store64 (mem s1) footer (load64 (mem s1) footer OR prev_mini_mask)\<rparr>)
         else s1)"

definition clear_prev_mini :: "mm_state \<Rightarrow> addr \<Rightarrow> mm_state" where
  "clear_prev_mini s block =
     (let s1 = s\<lparr>mem := store64 (mem s) block (load64 (mem s) block AND NOT prev_mini_mask)\<rparr>
      in if \<not> get_alloc s1 block \<and> \<not> get_mini s1 block
         then (let footer = header_to_footer s1 block
               in s1\<lparr>mem := store64 (mem s1) footer
                                (load64 (mem s1) footer AND NOT prev_mini_mask)\<rparr>)
         else s1)"

definition pack :: "64 word \<Rightarrow> bool \<Rightarrow> bool \<Rightarrow> bool \<Rightarrow> word_t" where
  "pack sz alloc prev_alloc prev_mini =
     (let word = sz;
          word = (if alloc then word OR alloc_mask else word);
          word = (if prev_alloc then word OR push_bit 1 alloc_mask else word);
          word = (if prev_mini then word OR push_bit 2 alloc_mask else word)
      in word)"

definition payload_to_header :: "addr \<Rightarrow> addr" where
  "payload_to_header bp = bp - 8"

definition header_to_payload :: "addr \<Rightarrow> addr" where
  "header_to_payload block = block + 8"

definition footer_to_header :: "mm_state \<Rightarrow> addr \<Rightarrow> addr" where
  "footer_to_header s footer = footer + wsize - extract_size (load64 (mem s) footer)"

definition get_payload_size :: "mm_state \<Rightarrow> addr \<Rightarrow> 64 word" where
  "get_payload_size s block =
     (let asize = get_size s block
      in if \<not> get_alloc s block then asize - dsize else asize - wsize)"

definition write_epilogue :: "mm_state \<Rightarrow> addr \<Rightarrow> mm_state" where
  "write_epilogue s block = s\<lparr>mem := store64 (mem s) block (pack 0 True False False)\<rparr>"

definition write_block :: "mm_state \<Rightarrow> addr \<Rightarrow> 64 word \<Rightarrow> bool \<Rightarrow> bool \<Rightarrow> bool \<Rightarrow> mm_state" where
  "write_block s block sz alloc prev_alloc prev_mini =
     (let s1 = s\<lparr>mem := store64 (mem s) block (pack sz alloc prev_alloc prev_mini)\<rparr>
      in if \<not> alloc \<and> sz \<noteq> mb_block_size
         then s1\<lparr>mem := store64 (mem s1) (header_to_footer s1 block)
                          (pack sz alloc prev_alloc prev_mini)\<rparr>
         else s1)"

definition find_next :: "mm_state \<Rightarrow> addr \<Rightarrow> addr" where
  "find_next s block = block + get_size s block"

definition find_prev_footer :: "addr \<Rightarrow> addr" where
  "find_prev_footer block = block - 8"

definition find_prev :: "mm_state \<Rightarrow> addr \<Rightarrow> addr" where
  "find_prev s block =
     (if get_prev_mini s block then block - mb_block_size
      else (let footerp = find_prev_footer block
            in if extract_size (load64 (mem s) footerp) = 0 then 0
               else footer_to_header s footerp))"

section \<open>Free lists\<close>

text \<open>
  The fields \<^verbatim>\<open>next\<close> and \<^verbatim>\<open>prev\<close> of a \<^verbatim>\<open>block_t\<close> lie 8 and 16 bytes after its header.
\<close>

definition next_of :: "mm_state \<Rightarrow> addr \<Rightarrow> addr" where
  "next_of s block = load64 (mem s) (block + 8)"

definition prev_of :: "mm_state \<Rightarrow> addr \<Rightarrow> addr" where
  "prev_of s block = load64 (mem s) (block + 16)"

definition set_next :: "mm_state \<Rightarrow> addr \<Rightarrow> addr \<Rightarrow> mm_state" where
  "set_next s block v = s\<lparr>mem := store64 (mem s) (block + 8) v\<rparr>"

definition set_prev :: "mm_state \<Rightarrow> addr \<Rightarrow> addr \<Rightarrow> mm_state" where
  "set_prev s block v = s\<lparr>mem := store64 (mem s) (block + 16) v\<rparr>"

definition size_to_class :: "64 word \<Rightarrow> nat" where
  "size_to_class sz =
     (if sz \<le> 32 then 0 else if sz \<le> 64 then 1 else if sz \<le> 128 then 2
      else if sz \<le> 256 then 3 else if sz \<le> 512 then 4 else if sz \<le> 1024 then 5
      else if sz \<le> 2048 then 6 else if sz \<le> 4096 then 7 else if sz \<le> 8192 then 8
      else if sz \<le> 16384 then 9 else if sz \<le> 32768 then 10
      else if sz \<le> 65536 then 11 else if sz \<le> 131072 then 12
      else if sz \<le> 262144 then 13 else 14)"

definition add_to_free_list :: "mm_state \<Rightarrow> addr \<Rightarrow> mm_state" where
  "add_to_free_list s block =
     (let class = size_to_class (get_size s block);
          s1 = set_next s block (size_class s class);
          s2 = set_prev s1 block 0;
          s3 = (if size_class s2 class \<noteq> 0 then set_prev s2 (size_class s2 class) block else s2)
      in s3\<lparr>size_class := (size_class s3)(class := block)\<rparr>)"

definition rem_from_free_list :: "mm_state \<Rightarrow> addr \<Rightarrow> mm_state" where
  "rem_from_free_list s block =
     (let old_prev = prev_of s block;
          old_next = next_of s block;
          class = size_to_class (get_size s block)
      in if old_prev = 0 \<and> old_next = 0
         then s\<lparr>size_class := (size_class s)(class := 0)\<rparr>
         else if old_prev \<noteq> 0 \<and> old_next \<noteq> 0
         then set_prev (set_next s old_prev old_next) old_next old_prev
         else if old_prev \<noteq> 0 \<and> old_next = 0
         then set_next s old_prev 0
         else if old_prev = 0 \<and> old_next \<noteq> 0
         then (let s1 = set_prev s old_next 0
               in s1\<lparr>size_class := (size_class s1)(class := old_next)\<rparr>)
         else s)"

text \<open>
  The loop of \<^verbatim>\<open>rem_from_mini_list\<close>: it walks the mini list until it runs off its end or
  stands on the node before \<open>block\<close>. On a cyclic list that does not hold \<open>block\<close> it never
  returns, which is the value \<open>None\<close>.
\<close>

partial_function (option) mini_walk :: "mm_state \<Rightarrow> addr \<Rightarrow> addr \<Rightarrow> addr option" where
  "mini_walk s current block =
     (if current \<noteq> 0 \<and> next_of s current \<noteq> block
      then mini_walk s (next_of s current) block
      else Some current)"

declare mini_walk.simps [code]

definition rem_from_mini_list :: "mm_state \<Rightarrow> addr \<Rightarrow> mm_state option" where
  "rem_from_mini_list s block =
     (if block = mini_block_head s
      then Some (s\<lparr>mini_block_head := next_of s (mini_block_head s)\<rparr>)
      else (case mini_walk s (mini_block_head s) block of
              None \<Rightarrow> None
            | Some current \<Rightarrow>
                if current \<noteq> 0 \<and> next_of s current = block
                then Some (set_next s current (next_of s block))
                else Some s))"

definition add_to_mini_list :: "mm_state \<Rightarrow> addr \<Rightarrow> mm_state" where
  "add_to_mini_list s block =
     (let s1 = set_next s block (mini_block_head s)
      in s1\<lparr>mini_block_head := block\<rparr>)"

text \<open>
  \<^verbatim>\<open>if (get_mini(b)) rem_from_mini_list(b); else rem_from_free_list(b);\<close>, the statement
  \<^verbatim>\<open>coalesce_block\<close> runs on each neighbour it merges.
\<close>

definition rem_from_its_list :: "mm_state \<Rightarrow> addr \<Rightarrow> mm_state option" where
  "rem_from_its_list s b =
     (if get_mini s b then rem_from_mini_list s b else Some (rem_from_free_list s b))"

section \<open>Coalescing, heap growth and splitting\<close>

definition coalesce_block :: "mm_state \<Rightarrow> addr \<Rightarrow> (mm_state \<times> addr) option" where
  "coalesce_block s block =
     (let next = find_next s block;
          prev = (if \<not> get_prev_alloc s block then find_prev s block else 0);
          prev_alloced = (get_prev_alloc s block \<or> prev = 0);
          next_alloced = (next = 0 \<or> get_alloc s next);
          sz = get_size s block
      in if \<not> prev_alloced \<and> \<not> next_alloced then
           (let sz = sz + get_size s prev;
                sz = sz + get_size s next
            in case rem_from_its_list s prev of None \<Rightarrow> None | Some s1 \<Rightarrow>
               (case rem_from_its_list s1 next of None \<Rightarrow> None | Some s2 \<Rightarrow>
                 (let s3 = write_block s2 prev sz False (get_prev_alloc s2 prev) (get_prev_mini s2 prev);
                      s4 = clear_prev_alloc s3 (find_next s3 prev);
                      s5 = clear_prev_mini s4 (find_next s4 prev)
                  in Some (s5, prev))))
         else if \<not> prev_alloced \<and> next_alloced then
           (let sz = sz + get_size s prev
            in case rem_from_its_list s prev of None \<Rightarrow> None | Some s1 \<Rightarrow>
                 (let s3 = write_block s1 prev sz False (get_prev_alloc s1 prev) (get_prev_mini s1 prev);
                      s4 = clear_prev_alloc s3 (find_next s3 prev);
                      s5 = clear_prev_mini s4 (find_next s4 prev)
                  in Some (s5, prev)))
         else if prev_alloced \<and> \<not> next_alloced then
           (let sz = sz + get_size s next
            in case rem_from_its_list s next of None \<Rightarrow> None | Some s1 \<Rightarrow>
                 (let s3 = write_block s1 block sz False (get_prev_alloc s1 block) (get_prev_mini s1 block);
                      s4 = clear_prev_alloc s3 (find_next s3 block);
                      s5 = clear_prev_mini s4 (find_next s4 block)
                  in Some (s5, block)))
         else
           (let s1 = clear_prev_alloc s next;
                s2 = (if get_mini s1 block then set_prev_mini s1 next else clear_prev_mini s1 next)
            in Some (s2, block)))"

definition extend_heap :: "mm_state \<Rightarrow> 64 word \<Rightarrow> (mm_state \<times> addr) option" where
  "extend_heap s sz0 =
     (let sz = round_up sz0 dsize;
          (s1, bp) = mem_sbrk s sz
      in if bp = - 1 then Some (s1, 0)
         else (let block = payload_to_header bp;
                   s2 = write_block s1 block sz False (get_prev_alloc s1 block) (get_prev_mini s1 block);
                   block_next = find_next s2 block;
                   s3 = write_epilogue s2 block_next
               in case coalesce_block s3 block of None \<Rightarrow> None
                  | Some (s4, block') \<Rightarrow> Some (add_to_free_list s4 block', block')))"

definition split_block :: "mm_state \<Rightarrow> addr \<Rightarrow> 64 word \<Rightarrow> mm_state" where
  "split_block s block asize =
     (let block_size = get_size s block;
          remainder = block_size - asize
      in if asize = mb_block_size then
           (if remainder \<ge> min_block_size then
              (let s1 = write_block s block mb_block_size True (get_prev_alloc s block) (get_prev_mini s block);
                   block_next = find_next s1 block;
                   s2 = write_block s1 block_next remainder False True True;
                   s3 = add_to_free_list s2 block_next;
                   s4 = clear_prev_alloc s3 (find_next s3 block_next)
               in clear_prev_mini s4 (find_next s4 block_next))
            else if remainder = mb_block_size then
              (let s1 = write_block s block mb_block_size True (get_prev_alloc s block) (get_prev_mini s block);
                   block_next = find_next s1 block;
                   s2 = write_block s1 block_next mb_block_size False True True;
                   s3 = add_to_mini_list s2 block_next;
                   s4 = clear_prev_alloc s3 (find_next s3 block_next)
               in set_prev_mini s4 (find_next s4 block_next))
            else
              (let s1 = write_block s block block_size True (get_prev_alloc s block) (get_prev_mini s block);
                   s2 = set_prev_alloc s1 (find_next s1 block)
               in set_prev_mini s2 (find_next s2 block)))
         else
           (if remainder \<ge> min_block_size then
              (let s1 = write_block s block asize True (get_prev_alloc s block) (get_prev_mini s block);
                   block_next = find_next s1 block;
                   s2 = write_block s1 block_next remainder False True False;
                   s3 = add_to_free_list s2 block_next;
                   s4 = clear_prev_alloc s3 (find_next s3 block_next)
               in clear_prev_mini s4 (find_next s4 block_next))
            else if remainder = mb_block_size then
              (let s1 = write_block s block asize True (get_prev_alloc s block) (get_prev_mini s block);
                   block_next = find_next s1 block;
                   s2 = write_block s1 block_next mb_block_size False True False;
                   s3 = add_to_mini_list s2 block_next;
                   s4 = clear_prev_alloc s3 (find_next s3 block_next)
               in set_prev_mini s4 (find_next s4 block_next))
            else
              (let s1 = write_block s block block_size True (get_prev_alloc s block) (get_prev_mini s block);
                   s2 = set_prev_alloc s1 (find_next s1 block)
               in clear_prev_mini s2 (find_next s2 block))))"

section \<open>Searching the free lists\<close>

text \<open>
  The first loop of \<^verbatim>\<open>find_fit\<close> scans the class of the request to its end; on a cyclic list
  without a fit it never returns (\<open>None\<close>).
\<close>

partial_function (option) first_fit_scan :: "mm_state \<Rightarrow> 64 word \<Rightarrow> addr \<Rightarrow> addr option" where
  "first_fit_scan s asize block =
     (if block \<noteq> 0
      then (if asize \<le> get_size s block then Some block
            else first_fit_scan s asize (next_of s block))
      else Some 0)"

declare first_fit_scan.simps [code]

text \<open>
  The inner loop over one higher class: \<open>best\<close>, \<open>best_size\<close> and \<open>search_count\<close> are the
  loop's variables; it stops at the end of the list or after \<^verbatim>\<open>MAX_SEARCH\<close> blocks.
\<close>

function best_fit_scan :: "mm_state \<Rightarrow> 64 word \<Rightarrow> addr \<Rightarrow> addr \<Rightarrow> 64 word \<Rightarrow> nat \<Rightarrow> addr" where
  "best_fit_scan s asize block best best_size search_count =
     (if block \<noteq> 0 \<and> search_count < MAX_SEARCH
      then (if asize \<le> get_size s block \<and> get_size s block < best_size
            then best_fit_scan s asize (next_of s block) block (get_size s block) (search_count + 1)
            else best_fit_scan s asize (next_of s block) best best_size (search_count + 1))
      else best)"
  by pat_completeness auto
termination
  by (relation "measure (\<lambda>(s, asize, block, best, best_size, search_count). MAX_SEARCH - search_count)")
     auto

declare best_fit_scan.simps [simp del]

function higher_classes :: "mm_state \<Rightarrow> 64 word \<Rightarrow> nat \<Rightarrow> addr" where
  "higher_classes s asize i =
     (if i < NUM_CLASSES
      then (if best_fit_scan s asize (size_class s i) 0 SIZE_MAX 0 \<noteq> 0
            then best_fit_scan s asize (size_class s i) 0 SIZE_MAX 0
            else higher_classes s asize (i + 1))
      else 0)"
  by pat_completeness auto
termination
  by (relation "measure (\<lambda>(s, asize, i). NUM_CLASSES - i)") auto

declare higher_classes.simps [simp del]

definition find_fit :: "mm_state \<Rightarrow> 64 word \<Rightarrow> addr option" where
  "find_fit s asize =
     (if asize \<le> mb_block_size \<and> mini_block_head s \<noteq> 0 then Some (mini_block_head s)
      else (let class = size_to_class asize
            in case (if size_class s class \<noteq> 0 then first_fit_scan s asize (size_class s class)
                     else Some 0) of
                 None \<Rightarrow> None
               | Some block \<Rightarrow>
                   if block \<noteq> 0 then Some block
                   else Some (higher_classes s asize (class + 1))))"

section \<open>The heap checker\<close>

text \<open>
  The heap walk of \<^verbatim>\<open>mm_checkheap\<close>, from \<open>block\<close> to the first block of size 0. It returns
  \<open>(False, _)\<close> where the source returns \<^verbatim>\<open>false\<close> from inside the loop, and
  \<open>(True, totalFreed)\<close> when the loop ends. The counters are C \<^verbatim>\<open>int\<close>s, modelled as
  unbounded integers (they count blocks, and 2^31 blocks do not fit a heap of \<^verbatim>\<open>memlib\<close>).
  The diagnostics printed on the way are not modelled. A walk that never ends is \<open>None\<close>.
\<close>

partial_function (option) heap_walk ::
  "mm_state \<Rightarrow> addr \<Rightarrow> addr \<Rightarrow> int \<Rightarrow> int \<Rightarrow> (bool \<times> int) option" where
  "heap_walk s block prev_block totalFreed totalAllocated =
     (if get_size s block > 0 then
        (if get_size s block mod 16 \<noteq> 0 then Some (False, totalFreed)
         else if get_size s block < mb_block_size then Some (False, totalFreed)
         else if block < mem_heap_lo s \<or> block > mem_heap_hi s then Some (False, totalFreed)
         else if prev_block \<noteq> 0 \<and> get_alloc s prev_block \<and> \<not> get_prev_alloc s block
           then Some (False, totalFreed)
         else if prev_block \<noteq> 0 \<and> \<not> get_alloc s prev_block \<and> get_prev_alloc s block
           then Some (False, totalFreed)
         else if \<not> get_alloc s block \<and> \<not> get_alloc s (find_next s block)
                 \<and> get_size s (find_next s block) > 0
           then Some (False, totalFreed)
         else if \<not> get_alloc s block \<and> \<not> get_mini s block
                 \<and> load64 (mem s) block \<noteq> load64 (mem s) (header_to_footer s block)
           then Some (False, totalFreed)
         else heap_walk s (find_next s block) block
                (if \<not> get_alloc s block then totalFreed + 1 else totalFreed)
                (if \<not> get_alloc s block then totalAllocated else totalAllocated + 1))
      else Some (True, totalFreed))"

declare heap_walk.simps [code]

text \<open>
  \<^verbatim>\<open>for (block = head; block != NULL; block = block->next) trackedFreed++;\<close>
\<close>

partial_function (option) count_nodes :: "mm_state \<Rightarrow> addr \<Rightarrow> int \<Rightarrow> int option" where
  "count_nodes s block trackedFreed =
     (if block \<noteq> 0 then count_nodes s (next_of s block) (trackedFreed + 1)
      else Some trackedFreed)"

declare count_nodes.simps [code]

function count_classes :: "mm_state \<Rightarrow> nat \<Rightarrow> int \<Rightarrow> int option" where
  "count_classes s i trackedFreed =
     (if i < NUM_CLASSES
      then (case count_nodes s (size_class s i) trackedFreed of
              None \<Rightarrow> None
            | Some t \<Rightarrow> count_classes s (i + 1) t)
      else Some trackedFreed)"
  by pat_completeness auto
termination
  by (relation "measure (\<lambda>(s, i, trackedFreed). NUM_CLASSES - i)") auto

declare count_classes.simps [simp del]

definition mm_checkheap :: "mm_state \<Rightarrow> bool option" where
  "mm_checkheap s =
     (let prologue = heap_start s - 8
      in if load64 (mem s) prologue \<noteq> pack 0 True True False then Some False
         else (case heap_walk s (heap_start s) 0 0 0 of
                 None \<Rightarrow> None
               | Some (ok, totalFreed) \<Rightarrow>
                   if \<not> ok then Some False
                   else (case count_classes s 0 0 of
                           None \<Rightarrow> None
                         | Some t \<Rightarrow>
                            (case count_nodes s (mini_block_head s) t of
                               None \<Rightarrow> None
                             | Some trackedFreed \<Rightarrow>
                                 if trackedFreed \<noteq> totalFreed then Some False
                                 else Some True))))"

section \<open>The public functions\<close>

definition mm_init :: "mm_state \<Rightarrow> (mm_state \<times> bool) option" where
  "mm_init s =
     (let (s1, start) = mem_sbrk s (2 * wsize)
      in if start = - 1 then Some (s1, False)
         else (let s2 = s1\<lparr>mem := store64 (mem s1) start (pack 0 True True False)\<rparr>;
                   s3 = s2\<lparr>mem := store64 (mem s2) (start + 8) (pack 0 True True False)\<rparr>;
                   s4 = s3\<lparr>size_class := (\<lambda>i. if i < NUM_CLASSES then 0 else size_class s3 i)\<rparr>;
                   s5 = s4\<lparr>mini_block_head := 0\<rparr>;
                   s6 = s5\<lparr>heap_start := start + 8\<rparr>
               in case extend_heap s6 chunksize of
                    None \<Rightarrow> None
                  | Some (s7, block) \<Rightarrow> if block = 0 then Some (s7, False) else Some (s7, True)))"

definition malloc :: "mm_state \<Rightarrow> 64 word \<Rightarrow> (mm_state \<times> addr) option" where
  "malloc s0 sz =
     (case (if heap_start s0 = 0 then mm_init s0 else Some (s0, True)) of
        None \<Rightarrow> None
      | Some (s, ok) \<Rightarrow>
          if \<not> ok then Some (s, 0)
          else if sz = 0 then Some (s, 0)
          else
            (let asize = (if sz \<le> mb_dsize then mb_block_size
                          else max_sz (round_up (sz + wsize) dsize) min_block_size)
             in case find_fit s asize of
                  None \<Rightarrow> None
                | Some block \<Rightarrow>
                    if asize = mb_block_size \<and> block \<noteq> 0 \<and> get_mini s block then
                      (case rem_from_mini_list s block of
                         None \<Rightarrow> None
                       | Some s1 \<Rightarrow>
                           (let s2 = write_block s1 block mb_block_size True
                                       (get_prev_alloc s1 block) (get_prev_mini s1 block);
                                s3 = set_prev_alloc s2 (find_next s2 block);
                                s4 = set_prev_mini s3 (find_next s3 block)
                            in Some (s4, header_to_payload block)))
                    else
                      (case (if block = 0 then extend_heap s (max_sz asize chunksize)
                             else Some (s, block)) of
                         None \<Rightarrow> None
                       | Some (s1, block1) \<Rightarrow>
                           if block1 = 0 then Some (s1, 0)
                           else (let s2 = rem_from_free_list s1 block1;
                                     s3 = split_block s2 block1 asize
                                 in Some (s3, header_to_payload block1)))))"

definition free :: "mm_state \<Rightarrow> addr \<Rightarrow> mm_state option" where
  "free s bp =
     (if bp = 0 then Some s
      else (let block = payload_to_header bp;
                sz = get_size s block;
                s1 = write_block s block sz False (get_prev_alloc s block) (get_prev_mini s block)
            in case coalesce_block s1 block of
                 None \<Rightarrow> None
               | Some (s2, block') \<Rightarrow>
                   if get_mini s2 block' then Some (add_to_mini_list s2 block')
                   else Some (add_to_free_list s2 block')))"

definition realloc :: "mm_state \<Rightarrow> addr \<Rightarrow> 64 word \<Rightarrow> (mm_state \<times> addr) option" where
  "realloc s ptr sz =
     (let block = payload_to_header ptr
      in if sz = 0 then (case free s ptr of None \<Rightarrow> None | Some s1 \<Rightarrow> Some (s1, 0))
         else if ptr = 0 then malloc s sz
         else (case malloc s sz of
                 None \<Rightarrow> None
               | Some (s1, newptr) \<Rightarrow>
                   if newptr = 0 then Some (s1, 0)
                   else (let copysize = get_payload_size s1 block;
                             copysize = (if sz < copysize then sz else copysize);
                             s2 = s1\<lparr>mem := memcpy (mem s1) newptr ptr copysize\<rparr>
                         in case free s2 ptr of
                              None \<Rightarrow> None
                            | Some s3 \<Rightarrow> Some (s3, newptr))))"

definition calloc :: "mm_state \<Rightarrow> 64 word \<Rightarrow> 64 word \<Rightarrow> (mm_state \<times> addr) option" where
  "calloc s elements sz =
     (let asize = elements * sz
      in if elements = 0 then Some (s, 0)
         else if asize div elements \<noteq> sz then Some (s, 0)
         else (case malloc s asize of
                 None \<Rightarrow> None
               | Some (s1, bp) \<Rightarrow>
                   if bp = 0 then Some (s1, 0)
                   else Some (s1\<lparr>mem := memset (mem s1) bp 0 asize\<rparr>, bp)))"

section \<open>A concrete heap\<close>

text \<open>
  The state before the first call: the globals are zero-initialised, the memory holds
  zeros, and the heap of the growth primitive is the empty range at address 4096 with room
  for 1 MiB.
\<close>

definition heap0 :: mm_state where
  "heap0 = \<lparr>mem = (\<lambda>_. 0), heap_start = 0, size_class = (\<lambda>_. 0), mini_block_head = 0,
             mem_heap = 0x1000, mem_brk = 0x1000, mem_max_addr = 0x101000\<rparr>"

text \<open>
  The heap after \<^verbatim>\<open>mm_init\<close> on \<open>heap0\<close> (lemma \<open>mm_init_heap0\<close> below): the prologue at
  0x1000, one free block of 4096 bytes at 0x1008, which heads size class 7, and the
  epilogue at 0x2008.
\<close>

definition heap1 :: mm_state where
  "heap1 = \<lparr>mem = store64 (store64 (store64 (store64 (store64 (store64 (store64 (store64
                 (store64 (\<lambda>_. 0) 0x1000 3) 0x1008 3) 0x1008 0x1002) 0x2000 0x1002)
                 0x2008 1) 0x2008 1) 0x2008 1) 0x1010 0) 0x1018 0,
             heap_start = 0x1008, size_class = (\<lambda>_. 0)(7 := 0x1008), mini_block_head = 0,
             mem_heap = 0x1000, mem_brk = 0x2010, mem_max_addr = 0x101000\<rparr>"

section \<open>Notions used in the statements\<close>

text \<open>
  The adjusted size \<^verbatim>\<open>asize\<close> that \<^verbatim>\<open>malloc\<close> computes from the requested size, and the
  condition under which the growth primitive rejects an increment.
\<close>

definition adjusted_size :: "64 word \<Rightarrow> 64 word" where
  "adjusted_size sz = (if sz \<le> mb_dsize then mb_block_size
                       else max_sz (round_up (sz + wsize) dsize) min_block_size)"

definition sbrk_rejects :: "mm_state \<Rightarrow> 64 word \<Rightarrow> bool" where
  "sbrk_rejects s incr = (sint incr < 0 \<or> unat (mem_max_addr s) < unat (mem_brk s) + unat incr)"


subsection \<open>Free lists as lists of blocks\<close>

text \<open>
  \<open>list_from s p bs\<close>: following the \<^verbatim>\<open>next\<close> fields from \<open>p\<close> visits exactly the blocks \<open>bs\<close>
  and then reaches the null pointer. \<open>nodes_upto s k p\<close> are the first \<open>k\<close> blocks on the way
  from \<open>p\<close> (fewer when the null pointer comes earlier).
\<close>

fun list_from :: "mm_state \<Rightarrow> addr \<Rightarrow> addr list \<Rightarrow> bool" where
  "list_from s p [] = (p = 0)"
| "list_from s p (b # bs) = (p = b \<and> b \<noteq> 0 \<and> list_from s (next_of s b) bs)"

fun nodes_upto :: "mm_state \<Rightarrow> nat \<Rightarrow> addr \<Rightarrow> addr list" where
  "nodes_upto s 0 p = []"
| "nodes_upto s (Suc k) p = (if p = 0 then [] else p # nodes_upto s k (next_of s p))"

text \<open>
  The search as the specification words it, on lists. \<open>find_fit_spec\<close> gets the head of
  the mini list, the size of each block, the list \<open>own\<close> of the class of the request and,
  for every class, the blocks \<open>examined\<close> there (at most 10). It returns the mini head
  when the request is at most 16 bytes and that list is not empty; else the first block
  of \<open>own\<close> that is large enough; else, from the first higher class that has one, the
  smallest block that is large enough among the examined ones (the first of them when
  several are smallest); else null.
\<close>

definition bounded_best :: "(addr \<Rightarrow> 64 word) \<Rightarrow> 64 word \<Rightarrow> addr list \<Rightarrow> addr option" where
  "bounded_best size_of asize bs =
     (let fits = filter (\<lambda>b. asize \<le> size_of b) bs
      in if fits = [] then None else Some (arg_min_list size_of fits))"

primrec first_some :: "('a \<Rightarrow> 'b option) \<Rightarrow> 'a list \<Rightarrow> 'b option" where
  "first_some f [] = None"
| "first_some f (x # xs) = (case f x of Some y \<Rightarrow> Some y | None \<Rightarrow> first_some f xs)"

definition find_fit_spec ::
  "addr \<Rightarrow> (addr \<Rightarrow> 64 word) \<Rightarrow> addr list \<Rightarrow> (nat \<Rightarrow> addr list) \<Rightarrow> 64 word \<Rightarrow> addr" where
  "find_fit_spec mini_head size_of own examined asize =
     (if asize \<le> 16 \<and> mini_head \<noteq> 0 then mini_head
      else case find (\<lambda>b. asize \<le> size_of b) own of
             Some b \<Rightarrow> b
           | None \<Rightarrow>
              (case first_some (\<lambda>c. bounded_best size_of asize (examined c))
                      [size_to_class asize + 1 ..< 15] of
                 Some b \<Rightarrow> b
               | None \<Rightarrow> 0))"

text \<open>The loop of \<open>best_fit_scan\<close>, run on the list of the blocks it visits.\<close>

fun scan_best :: "(addr \<Rightarrow> 64 word) \<Rightarrow> 64 word \<Rightarrow> addr \<Rightarrow> 64 word \<Rightarrow> addr list \<Rightarrow> addr" where
  "scan_best size_of asize best best_size [] = best"
| "scan_best size_of asize best best_size (x # xs) =
     (if asize \<le> size_of x \<and> size_of x < best_size
      then scan_best size_of asize x (size_of x) xs
      else scan_best size_of asize best best_size xs)"

subsection \<open>What the heap checker checks\<close>




subsection \<open>The heap as a chain of blocks\<close>

text \<open>
  \<open>al8 a\<close>: the address \<open>a\<close> is a multiple of 8. \<open>chain s a bs e\<close>: the walk by \<^verbatim>\<open>find_next\<close>
  from \<open>a\<close> goes through the blocks \<open>bs\<close>, each of at least 16 bytes, and ends at the address
  \<open>e\<close> without wrapping around the address space. \<open>heap_layout s a blocks e\<close>: the blocks from
  the aligned address \<open>a\<close> form such a chain up to the epilogue word at \<open>e\<close>, which is marked
  allocated and lies within the address space.
\<close>

definition al8 :: "addr \<Rightarrow> bool" where
  "al8 a = (a AND 7 = 0)"

fun chain :: "mm_state \<Rightarrow> addr \<Rightarrow> addr list \<Rightarrow> addr \<Rightarrow> bool" where
  "chain s a [] e = (a = e)"
| "chain s a (b # bs) e =
     (a = b \<and> 16 \<le> unat (get_size s b) \<and> unat b + unat (get_size s b) \<le> unat e \<and>
      chain s (b + get_size s b) bs e)"







text \<open>
  A state for the search, in which only the headers and the link fields of the list nodes
  are written. The mini list holds the block 0x3000; class 1 the blocks 0x3100 (48 bytes)
  and 0x3200 (64 bytes); class 2 the block 0x3300 (80 bytes); class 3 the twelve blocks
  0x4000, 0x4100, ..., 0x4B00 of 256, 240, 176, 160, 208, 192, 160, 224, 176, 256, 144 and
  160 bytes.
\<close>

definition heap3 :: mm_state where
  "heap3 = \<lparr>mem = store64 (store64 (store64 (store64 (store64 (store64 (store64 (store64 (store64
                 (store64 (store64 (store64 (store64 (store64 (store64 (store64 (store64 (store64
                 (store64 (store64 (store64 (store64 (store64 (store64 (store64 (store64 (store64
                 (store64 (store64 (store64 (store64 (store64 (store64 (store64 (store64 (store64
                 (store64 (store64 (store64 (store64 ((\<lambda>_. 0)) 0x3000 0x12) 0x3100 0x32)
                 0x3108 0x3200) 0x3200 0x42) 0x3210 0x3100) 0x3300 0x52) 0x4000 0x102) 0x4008
                 0x4100) 0x4100 0xF2) 0x4108 0x4200) 0x4110 0x4000) 0x4200 0xB2) 0x4208 0x4300)
                 0x4210 0x4100) 0x4300 0xA2) 0x4308 0x4400) 0x4310 0x4200) 0x4400 0xD2) 0x4408
                 0x4500) 0x4410 0x4300) 0x4500 0xC2) 0x4508 0x4600) 0x4510 0x4400) 0x4600 0xA2)
                 0x4608 0x4700) 0x4610 0x4500) 0x4700 0xE2) 0x4708 0x4800) 0x4710 0x4600) 0x4800
                 0xB2) 0x4808 0x4900) 0x4810 0x4700) 0x4900 0x102) 0x4908 0x4A00) 0x4910 0x4800)
                 0x4A00 0x92) 0x4A08 0x4B00) 0x4A10 0x4900) 0x4B00 0xA2) 0x4B10 0x4A00,
             heap_start = 0x1008, size_class = (\<lambda>_. 0)(1 := 0x3100, 2 := 0x3300, 3 := 0x4000),
             mini_block_head = 0x3000,
             mem_heap = 0x1000, mem_brk = 0x5000, mem_max_addr = 0x101000\<rparr>"


text \<open>
  The heap that \<^verbatim>\<open>mm_init\<close> builds when the heap of the growth primitive begins at 0x1008
  (lemma \<open>mm_init_heap6\<close> below): the prologue at 0x1008, one free block of 4096 bytes at
  0x1010, and the epilogue at 0x2010.
\<close>

definition heap6 :: mm_state where
  "heap6 = \<lparr>mem = store64 (store64 (store64 (store64 (store64 (store64 (store64 (store64
                 (store64 (\<lambda>_. 0) 0x1008 3) 0x1010 3) 0x1010 0x1002) 0x2008 0x1002)
                 0x2010 1) 0x2010 1) 0x2010 1) 0x1018 0) 0x1020 0,
             heap_start = 0x1010, size_class = (\<lambda>_. 0)(7 := 0x1010), mini_block_head = 0,
             mem_heap = 0x1008, mem_brk = 0x2018, mem_max_addr = 0x101000\<rparr>"

subsection \<open>Notions used in the proofs about coalescing\<close>

text \<open>
  \<open>only_at W m m'\<close>: the memory \<open>m'\<close> differs from \<open>m\<close> at most in the 8-byte words at the addresses
  in \<open>W\<close>. \<open>mem_only s s'\<close>: the states differ at most in their memory. \<open>word_in s g k w\<close>:
  the word at \<open>w\<close> lies \<open>k\<close> bytes into the block \<open>g\<close>.
\<close>

definition only_at :: "addr set \<Rightarrow> memory \<Rightarrow> memory \<Rightarrow> bool" where
  "only_at W m m' = (\<forall>x. (\<forall>w\<in>W. 8 \<le> x - w) \<longrightarrow> m' x = m x)"

definition mem_only :: "mm_state \<Rightarrow> mm_state \<Rightarrow> bool" where
  "mem_only s s' = (s' = s\<lparr>mem := mem s'\<rparr>)"


text \<open>
  The prev_alloc and prev_mini bits of a header word, and the two statement sequences of
  \<^verbatim>\<open>coalesce_block\<close>: \<open>merge_tail\<close> ends each of its three merging branches
  (\<^verbatim>\<open>write_block; clear_prev_alloc(find_next); clear_prev_mini(find_next)\<close>), \<open>flag_step\<close> is
  its branch without a merge.
\<close>

definition hdr_prev_alloc :: "word_t \<Rightarrow> bool" where
  "hdr_prev_alloc h = (drop_bit 1 h AND 1 \<noteq> 0)"

definition hdr_prev_mini :: "word_t \<Rightarrow> bool" where
  "hdr_prev_mini h = (drop_bit 2 h AND 1 \<noteq> 0)"







section \<open>Memory lemmas\<close>

lemma assemble_bytes:
  "ucast (byte_of w 0) OR push_bit 8 (ucast (byte_of w 1)) OR push_bit 16 (ucast (byte_of w 2))
     OR push_bit 24 (ucast (byte_of w 3)) OR push_bit 32 (ucast (byte_of w 4))
     OR push_bit 40 (ucast (byte_of w 5)) OR push_bit 48 (ucast (byte_of w 6))
     OR push_bit 56 (ucast (byte_of w 7)) = (w :: 64 word)"
proof (rule bit_word_eqI)
  fix n :: nat
  assume "n < LENGTH(64)"
  then have cases: "n < 8 \<or> (8 \<le> n \<and> n < 16) \<or> (16 \<le> n \<and> n < 24) \<or> (24 \<le> n \<and> n < 32)
       \<or> (32 \<le> n \<and> n < 40) \<or> (40 \<le> n \<and> n < 48) \<or> (48 \<le> n \<and> n < 56)
       \<or> (56 \<le> n \<and> n < 64)"
    by simp linarith
  let ?lhs = "ucast (byte_of w 0) OR push_bit 8 (ucast (byte_of w 1))
     OR push_bit 16 (ucast (byte_of w 2)) OR push_bit 24 (ucast (byte_of w 3))
     OR push_bit 32 (ucast (byte_of w 4)) OR push_bit 40 (ucast (byte_of w 5))
     OR push_bit 48 (ucast (byte_of w 6)) OR push_bit 56 (ucast (byte_of w 7)) :: 64 word"
  from cases show "bit ?lhs n = bit w n"
    by (elim disjE conjE; cases "bit w n"; simp add: bit_simps byte_of_def less_diff_conv2)
qed

lemma load64_cong:
  assumes h: "\<And>k. k < 8 \<Longrightarrow> m (a + k) = m' (a + k)"
  shows "load64 m a = load64 m' a"
proof -
  have "m (a + 0) = m' (a + 0)" "m (a + 1) = m' (a + 1)" "m (a + 2) = m' (a + 2)"
    "m (a + 3) = m' (a + 3)" "m (a + 4) = m' (a + 4)" "m (a + 5) = m' (a + 5)"
    "m (a + 6) = m' (a + 6)" "m (a + 7) = m' (a + 7)"
    by (rule h, simp)+
  then show ?thesis unfolding load64_def by simp
qed

lemma store64_other: "8 \<le> x - a \<Longrightarrow> store64 m a w x = m x"
  by (simp add: store64_def not_less[symmetric])

lemma store64_at: "k < 8 \<Longrightarrow> store64 m a w (a + k) = byte_of w (unat k)"
  by (simp add: store64_def)

lemma load64_store64_same: "load64 (store64 m a w) a = w"
proof -
  have "store64 m a w (a + 0) = byte_of w 0" "store64 m a w (a + 1) = byte_of w 1"
    "store64 m a w (a + 2) = byte_of w 2" "store64 m a w (a + 3) = byte_of w 3"
    "store64 m a w (a + 4) = byte_of w 4" "store64 m a w (a + 5) = byte_of w 5"
    "store64 m a w (a + 6) = byte_of w 6" "store64 m a w (a + 7) = byte_of w 7"
    by (simp_all add: store64_at del: add_0_right)
  then show ?thesis unfolding load64_def using assemble_bytes[of w] by simp
qed

lemma load64_store64_disj:
  assumes "8 \<le> b - a" "8 \<le> a - b"
  shows "load64 (store64 m a w) b = load64 m b"
proof (rule load64_cong)
  fix k :: "64 word"
  assume "k < 8"
  with assms have "8 \<le> b + k - a"
    by unat_arith
  then show "store64 m a w (b + k) = m (b + k)" by (rule store64_other)
qed

lemma load64_zero: "load64 (\<lambda>_. 0) a = 0"
  by (simp add: load64_def)

lemma aligned8_diff:
  assumes "a AND 7 = 0" "b AND 7 = 0" "b \<noteq> (a :: 64 word)"
  shows "8 \<le> b - a"
proof -
  have "a AND mask 3 = 0" "b AND mask 3 = 0"
    using assms by (simp_all add: mask_eq_exp_minus_1)
  then have "2 ^ 3 dvd unat a" "2 ^ 3 dvd unat b"
    by (simp_all only: and_mask_dvd_nat)
  then obtain i j where i: "unat a = 8 * i" and j: "unat b = 8 * j" by (auto elim!: dvdE)
  have ne: "i \<noteq> j" using assms(3) i j by (auto simp: word_unat_eq_iff)
  have ua: "8 * i < 18446744073709551616" using unsigned_less[of a, where 'a=nat] i by simp
  have ub: "8 * j < 18446744073709551616" using unsigned_less[of b, where 'a=nat] j by simp
  have "unat (b - a) = (if unat a \<le> unat b then unat b - unat a
                        else unat b + 18446744073709551616 - unat a)"
    using unat_sub_if'[of b a] by simp
  then have "unat (b - a) = (if i \<le> j then 8 * j - 8 * i
                             else 8 * j + 18446744073709551616 - 8 * i)"
    using i j by simp
  then have "8 \<le> unat (b - a)" using ne ua ub by (simp split: if_splits; presburger)
  then show ?thesis by (simp add: word_le_nat_alt)
qed

lemma load64_store64_al:
  "a AND 7 = 0 \<Longrightarrow> b AND 7 = 0 \<Longrightarrow>
   load64 (store64 m a w) b = (if b = a then w else load64 m b)"
  using aligned8_diff[of a b] aligned8_diff[of b a]
  by (auto simp: load64_store64_same load64_store64_disj)

subsection \<open>Comparing 64-bit numerals\<close>

lemma unat_numeral64:
  assumes "(numeral m :: nat) < 18446744073709551616"
  shows "unat (numeral m :: 64 word) = numeral m"
proof -
  have "unat (numeral m :: 64 word) = numeral m mod 2 ^ LENGTH(64)" by (rule unat_numeral)
  also have "(2::nat) ^ LENGTH(64) = 18446744073709551616" by simp
  also have "numeral m mod 18446744073709551616 = (numeral m :: nat)"
    using assms by (rule mod_less)
  finally show ?thesis .
qed

lemma w64_numeral_eq:
  "(numeral m :: nat) < 18446744073709551616 \<Longrightarrow> (numeral n :: nat) < 18446744073709551616 \<Longrightarrow>
   ((numeral m :: 64 word) = numeral n) = (m = n)"
  by (simp only: word_unat_eq_iff unat_numeral64 numeral_eq_iff)

lemma w64_numeral_le:
  "(numeral m :: nat) < 18446744073709551616 \<Longrightarrow> (numeral n :: nat) < 18446744073709551616 \<Longrightarrow>
   ((numeral m :: 64 word) \<le> numeral n) = (m \<le> n)"
  by (simp only: word_le_nat_alt unat_numeral64 numeral_le_iff)

lemma w64_numeral_less:
  "(numeral m :: nat) < 18446744073709551616 \<Longrightarrow> (numeral n :: nat) < 18446744073709551616 \<Longrightarrow>
   ((numeral m :: 64 word) < numeral n) = (m < n)"
  by (simp only: word_less_nat_alt unat_numeral64 numeral_less_iff)

subsection \<open>Reading through a copy or a fill\<close>

lemma unat_lt8: "(k :: 64 word) < 8 \<Longrightarrow> unat k < 8"
  by (simp add: word_less_nat_alt)

lemma unat_add64:
  "unat (a :: 64 word) + unat k < 18446744073709551616 \<Longrightarrow> unat (a + k) = unat a + unat k"
  using unat_add_lem[of a k] by simp

lemma unat_sub64:
  "unat ((a :: 64 word) - b) = (if unat b \<le> unat a then unat a - unat b
                                else unat a + 18446744073709551616 - unat b)"
  using unat_sub_if'[of a b] by simp

lemma unat_bound64: "unat (a :: 64 word) < 18446744073709551616"
  using unsigned_less[of a, where 'a=nat] by simp

lemma memcpy_in: "x - dst < n \<Longrightarrow> memcpy m dst src n x = m (src + (x - dst))"
  by (simp add: memcpy_def)

lemma memcpy_out: "n \<le> x - dst \<Longrightarrow> memcpy m dst src n x = m x"
  by (simp add: memcpy_def not_less[symmetric])

lemma load64_memcpy_in:
  assumes "unat dst \<le> unat a" "unat a + 8 \<le> unat dst + unat n"
    "unat dst + unat n \<le> 18446744073709551616"
  shows "load64 (memcpy m dst src n) a = load64 m (src + (a - dst))"
proof -
  have "load64 (memcpy m dst src n) a = load64 (\<lambda>x. m (src + (x - dst))) a"
  proof (rule load64_cong)
    fix k :: "64 word"
    assume "k < 8"
    then have k: "unat k < 8" by (rule unat_lt8)
    have s1: "unat (a + k) = unat a + unat k" using assms k by (intro unat_add64) linarith
    have "unat (a + k - dst) = unat a + unat k - unat dst"
      using s1 assms by (simp add: unat_sub64)
    then have "a + k - dst < n" using assms k by (simp add: word_less_nat_alt)
    then show "memcpy m dst src n (a + k) = m (src + (a + k - dst))" by (rule memcpy_in)
  qed
  also have "\<dots> = load64 m (src + (a - dst))"
    by (simp add: load64_def algebra_simps)
  finally show ?thesis .
qed

lemma load64_memcpy_out:
  assumes "unat a + 8 \<le> unat dst \<or> unat dst + unat n \<le> unat a"
    "unat dst + unat n \<le> 18446744073709551616" "unat a + 8 \<le> 18446744073709551616"
  shows "load64 (memcpy m dst src n) a = load64 m a"
proof (rule load64_cong)
  fix k :: "64 word"
  assume "k < 8"
  then have k: "unat k < 8" by (rule unat_lt8)
  have s1: "unat (a + k) = unat a + unat k" using assms k by (intro unat_add64) linarith
  have "unat n \<le> unat (a + k - dst)"
    using assms k s1 unat_bound64[of dst] by (simp add: unat_sub64) linarith
  then have "n \<le> a + k - dst" by (simp add: word_le_nat_alt)
  then show "memcpy m dst src n (a + k) = m (a + k)" by (rule memcpy_out)
qed

lemma load64_memset_out:
  assumes "unat a + 8 \<le> unat dst \<or> unat dst + unat n \<le> unat a"
    "unat dst + unat n \<le> 18446744073709551616" "unat a + 8 \<le> 18446744073709551616"
  shows "load64 (memset m dst c n) a = load64 m a"
proof (rule load64_cong)
  fix k :: "64 word"
  assume "k < 8"
  then have k: "unat k < 8" by (rule unat_lt8)
  have s1: "unat (a + k) = unat a + unat k" using assms k by (intro unat_add64) linarith
  have "unat n \<le> unat (a + k - dst)"
    using assms k s1 unat_bound64[of dst] by (simp add: unat_sub64) linarith
  then have "n \<le> a + k - dst" by (simp add: word_le_nat_alt)
  then show "memset m dst c n (a + k) = m (a + k)" by (simp add: memset_def not_less[symmetric])
qed

subsection \<open>Rules for evaluating on concrete heaps\<close>

lemmas const_defs = wsize_def dsize_def min_block_size_def chunksize_def alloc_mask_def
  prev_alloc_mask_def prev_mini_mask_def size_mask_def NUM_CLASSES_def mb_block_size_def
  mb_dsize_def MAX_SEARCH_def SIZE_MAX_def

lemmas hdr_defs = max_sz_def round_up_def extract_alloc_def get_alloc_def get_prev_alloc_def
  clear_prev_alloc_def set_prev_alloc_def extract_size_def get_size_def get_mini_def
  get_prev_mini_def header_to_footer_def set_prev_mini_def clear_prev_mini_def pack_def
  payload_to_header_def header_to_payload_def footer_to_header_def get_payload_size_def
  write_epilogue_def write_block_def find_next_def find_prev_footer_def find_prev_def
  next_of_def prev_of_def set_next_def set_prev_def size_to_class_def

lemmas op_defs = add_to_free_list_def rem_from_free_list_def rem_from_mini_list_def
  add_to_mini_list_def rem_from_its_list_def coalesce_block_def extend_heap_def
  split_block_def find_fit_def mem_sbrk_def mem_heap_lo_def mem_heap_hi_def mm_init_def
  malloc_def free_def realloc_def calloc_def mm_checkheap_def

lemmas eval_simps = heap0_def const_defs hdr_defs op_defs load64_store64_al load64_zero Let_def
  w64_numeral_eq w64_numeral_le w64_numeral_less unat_numeral64 load64_memcpy_in
  load64_memcpy_out load64_memset_out first_fit_scan.simps best_fit_scan.simps
  higher_classes.simps mini_walk.simps heap_walk.simps count_nodes.simps count_classes.simps

lemmas eval_dels = word_eq_numeral_iff_iszero(1) less_eq_word_numeral_numeral
  less_word_numeral_numeral unsigned_numeral

lemmas eval_congs = let_weak_cong prod.case_cong_weak option.case_cong_weak

lemma mm_init_heap0: "mm_init heap0 = Some (heap1, True)"
  by (simp add: eval_simps heap1_def del: eval_dels cong: eval_congs) auto

section \<open>The break under the allocator's operations\<close>

lemma brk_simple [simp]:
  "mem_brk (clear_prev_alloc s b) = mem_brk s"
  "mem_brk (set_prev_alloc s b) = mem_brk s"
  "mem_brk (set_prev_mini s b) = mem_brk s"
  "mem_brk (clear_prev_mini s b) = mem_brk s"
  "mem_brk (write_epilogue s b) = mem_brk s"
  "mem_brk (write_block s b sz al pa pm) = mem_brk s"
  "mem_brk (set_next s b v) = mem_brk s"
  "mem_brk (set_prev s b v) = mem_brk s"
  by (simp_all add: clear_prev_alloc_def set_prev_alloc_def set_prev_mini_def clear_prev_mini_def
      write_epilogue_def write_block_def set_next_def set_prev_def Let_def)

lemma brk_lists [simp]:
  "mem_brk (add_to_free_list s b) = mem_brk s"
  "mem_brk (rem_from_free_list s b) = mem_brk s"
  "mem_brk (add_to_mini_list s b) = mem_brk s"
  by (simp_all add: add_to_free_list_def rem_from_free_list_def add_to_mini_list_def Let_def)

lemma brk_rem_mini: "rem_from_mini_list s b = Some s' \<Longrightarrow> mem_brk s' = mem_brk s"
  by (auto simp: rem_from_mini_list_def split: if_splits option.splits)

lemma brk_rem_its: "rem_from_its_list s b = Some s' \<Longrightarrow> mem_brk s' = mem_brk s"
  by (auto simp: rem_from_its_list_def brk_rem_mini split: if_splits)

lemma brk_split [simp]: "mem_brk (split_block s b asize) = mem_brk s"
  by (simp add: split_block_def Let_def)

lemma brk_coalesce: "coalesce_block s b = Some (s', b') \<Longrightarrow> mem_brk s' = mem_brk s"
  by (auto simp: coalesce_block_def Let_def dest!: brk_rem_its split: if_splits option.splits)

lemma extend_heap_grows:
  assumes "extend_heap s sz = Some (s', b)" "\<not> sbrk_rejects s (round_up sz dsize)"
  shows "mem_brk s' = mem_brk s + round_up sz dsize"
  using assms
  by (auto simp: extend_heap_def Let_def mem_sbrk_def sbrk_rejects_def dest!: brk_coalesce
           split: if_splits option.splits prod.splits)

lemma extend_heap_fails:
  assumes "sbrk_rejects s (round_up sz dsize)"
  shows "extend_heap s sz = Some (s, 0)"
  using assms
  by (auto simp: extend_heap_def Let_def mem_sbrk_def sbrk_rejects_def)

lemma extend_heap_brk:
  assumes "extend_heap s sz = Some (s', b)"
  shows "mem_brk s' = mem_brk s \<or> mem_brk s' = mem_brk s + round_up sz dsize"
  using assms
  by (auto simp: extend_heap_def Let_def mem_sbrk_def dest!: brk_coalesce
           split: if_splits option.splits prod.splits)

lemma unat_round_up16: "unat (round_up x 16) = 16 * (unat (x + 15) div 16)"
proof -
  have "unat (x + 15) div 16 * 16 \<le> unat (x + 15)" by simp
  then have "16 * (unat (x + 15) div 16) < 2 ^ 64"
    using unat_bound64[of "x + 15"] by simp
  then show ?thesis
    by (simp add: round_up_def unat_word_ariths unat_div)
qed

lemma round_up16_id:
  assumes "16 dvd unat x" "unat x + 15 < 18446744073709551616"
  shows "round_up x 16 = x"
proof -
  have "unat (x + 15) = unat x + 15" using assms(2) unat_add64[of x 15] by simp
  then have "unat (round_up x 16) = unat x"
    using assms(1) by (auto simp: unat_round_up16 elim!: dvdE)
  then show ?thesis by (simp add: word_unat_eq_iff)
qed

lemma adjusted_size_dvd: "16 dvd unat (adjusted_size n)"
  by (simp add: adjusted_size_def max_sz_def const_defs unat_round_up16[simplified])

lemma adjusted_size_bound: "unat (adjusted_size n) + 15 < 18446744073709551616"
proof -
  have "16 dvd unat (adjusted_size n)" by (rule adjusted_size_dvd)
  then obtain k where "unat (adjusted_size n) = 16 * k" by (auto elim!: dvdE)
  then show ?thesis using unat_bound64[of "adjusted_size n"] by presburger
qed

lemma extend_size:
  "round_up (max_sz (adjusted_size n) chunksize) dsize = max_sz (adjusted_size n) chunksize"
  "4096 \<le> unat (max_sz (adjusted_size n) chunksize)"
  using adjusted_size_dvd[of n] adjusted_size_bound[of n]
  by (auto simp: max_sz_def const_defs word_less_nat_alt word_le_nat_alt intro!: round_up16_id)

lemma malloc_asize:
  "(if sz \<le> mb_dsize then mb_block_size else max_sz (round_up (sz + wsize) dsize) min_block_size)
    = adjusted_size sz"
  by (simp add: adjusted_size_def)

lemma malloc_brk:
  assumes "heap_start s \<noteq> 0" "malloc s n = Some (s', p)"
  shows "mem_brk s' = mem_brk s \<or>
         (mem_brk s' = mem_brk s + max_sz (adjusted_size n) chunksize \<and>
          4096 \<le> unat (max_sz (adjusted_size n) chunksize))"
  using assms extend_size[of n]
  by (auto simp: malloc_def malloc_asize Let_def dest!: brk_rem_mini extend_heap_brk
           split: if_splits option.splits prod.splits)

lemma mm_init_brk:
  assumes "mm_init s = Some (s', True)"
  shows "mem_brk s' = mem_brk s + 2 * wsize + chunksize"
proof -
  have r: "round_up chunksize dsize = chunksize"
    by (simp add: const_defs round_up16_id)
  show ?thesis
    using assms
    by (auto simp: mm_init_def Let_def r mem_sbrk_def extend_heap_def dest!: brk_coalesce
             split: if_splits option.splits prod.splits)
qed

lemma round_up16_bounds:
  assumes "unat x + 15 < 18446744073709551616"
  shows "unat x \<le> unat (round_up x 16)" "unat (round_up x 16) < unat x + 16"
    "16 dvd unat (round_up x 16)"
proof -
  have u: "unat (x + 15) = unat x + 15" using assms unat_add64[of x 15] by simp
  have r: "unat (round_up x 16) = 16 * ((unat x + 15) div 16)"
    by (simp add: unat_round_up16 u)
  show "unat x \<le> unat (round_up x 16)" unfolding r by presburger
  show "unat (round_up x 16) < unat x + 16" unfolding r by presburger
  show "16 dvd unat (round_up x 16)" unfolding r by simp
qed

lemma extend_heap_moves:
  assumes "extend_heap s sz = Some (s', b)" "mem_brk s' \<noteq> mem_brk s"
  shows "\<not> sbrk_rejects s (round_up sz dsize)"
    and "unat (mem_brk s') = unat (mem_brk s) + unat (round_up sz dsize)"
proof -
  show r: "\<not> sbrk_rejects s (round_up sz dsize)"
    using assms extend_heap_fails[of s sz] by auto
  then have "mem_brk s' = mem_brk s + round_up sz dsize"
    using assms(1) by (intro extend_heap_grows)
  moreover have "unat (mem_brk s) + unat (round_up sz dsize) < 18446744073709551616"
    using r unat_bound64[of "mem_max_addr s"] by (simp add: sbrk_rejects_def)
  ultimately show "unat (mem_brk s') = unat (mem_brk s) + unat (round_up sz dsize)"
    by (simp add: unat_add64)
qed

lemma malloc_extends:
  assumes "heap_start s \<noteq> 0" "malloc s n = Some (s', p)" "mem_brk s' \<noteq> mem_brk s"
  shows "\<exists>s1 b. extend_heap s (max_sz (adjusted_size n) chunksize) = Some (s1, b) \<and>
           mem_brk s' = mem_brk s1"
  using assms
  by (auto simp: malloc_def malloc_asize Let_def dest!: brk_rem_mini
           split: if_splits option.splits prod.splits)

lemma extend_chunk:
  assumes e: "extend_heap s6 chunksize = Some (s, b)" and bn: "b \<noteq> 0"
  shows "unat (mem_brk s) = unat (mem_brk s6) + 4096"
proof -
  have r: "round_up chunksize dsize = chunksize"
    by (simp add: const_defs round_up16_id)
  have c: "unat chunksize = 4096" by (simp add: chunksize_def)
  have nr: "\<not> sbrk_rejects s6 (round_up chunksize dsize)"
    using e bn extend_heap_fails[of s6 chunksize] by auto
  then have "mem_brk s = mem_brk s6 + chunksize"
    using extend_heap_grows[OF e] r by simp
  moreover have "unat (mem_brk s6) + unat chunksize < 18446744073709551616"
    using nr r unat_bound64[of "mem_max_addr s6"] by (simp add: sbrk_rejects_def)
  ultimately have "unat (mem_brk s) = unat (mem_brk s6) + unat chunksize"
    by (simp add: unat_add64)
  with c show ?thesis by simp
qed

lemma mm_init_extends:
  assumes "mm_init s0 = Some (s, True)"
  shows "unat (mem_brk s) = unat (mem_brk s0) + 16 + 4096"
  using assms unat_bound64[of "mem_max_addr s0"]
  apply (clarsimp simp: mm_init_def Let_def mem_sbrk_def wsize_def
      split: if_splits option.splits prod.splits)
  apply (drule extend_chunk, assumption)
  apply (simp add: unat_add64)
  done

text \<open>
  Claim C9 (extend rounds the request up to a multiple of 16 and takes the maximum with the
  chunk size 4096 before it calls the grow primitive, so every successful heap extension
  grows the heap by at least 4096 bytes). An extension is made by the statements
  \<^verbatim>\<open>extendsize = max(asize, chunksize); block = extend_heap(extendsize);\<close> of \<^verbatim>\<open>malloc\<close> and
  \<^verbatim>\<open>size = round_up(size, dsize); mem_sbrk(size)\<close> of \<^verbatim>\<open>extend_heap\<close>. First, when \<^verbatim>\<open>extend_heap\<close>
  moves the break on a request \<open>sz\<close> (with \<open>sz + 15\<close> below \<open>2^64\<close>), it moves it by
  \<^verbatim>\<open>round_up(sz, 16)\<close>, which is the multiple of 16 in \<open>[sz, sz + 16)\<close>. Second, when \<^verbatim>\<open>malloc\<close> on
  an initialised heap moves the break, it has called \<^verbatim>\<open>extend_heap\<close> with
  \<^verbatim>\<open>max(asize, chunksize)\<close> and the break has moved by that request rounded up, a multiple of
  16 that is at least \<open>asize\<close> and at least 4096. Third, a successful \<^verbatim>\<open>mm_init\<close> moves the
  break by the 16 bytes of the sentinels and the 4096 bytes of its extension.
\<close>

theorem heap_extension_size:
  "(unat sz + 15 < 18446744073709551616 \<longrightarrow> extend_heap s sz = Some (s', b) \<longrightarrow>
      mem_brk s' \<noteq> mem_brk s \<longrightarrow>
        unat (mem_brk s') = unat (mem_brk s) + unat (round_up sz dsize) \<and>
        16 dvd unat (round_up sz dsize) \<and>
        unat sz \<le> unat (round_up sz dsize) \<and> unat (round_up sz dsize) < unat sz + 16) \<and>
   (heap_start s \<noteq> 0 \<longrightarrow> malloc s n = Some (s'', p) \<longrightarrow> mem_brk s'' \<noteq> mem_brk s \<longrightarrow>
      (\<exists>s1 b1. extend_heap s (max_sz (adjusted_size n) chunksize) = Some (s1, b1) \<and>
               mem_brk s'' = mem_brk s1) \<and>
      unat (mem_brk s'') =
        unat (mem_brk s) + unat (round_up (max_sz (adjusted_size n) chunksize) dsize) \<and>
      16 dvd unat (round_up (max_sz (adjusted_size n) chunksize) dsize) \<and>
      unat (adjusted_size n) \<le> unat (round_up (max_sz (adjusted_size n) chunksize) dsize) \<and>
      4096 \<le> unat (round_up (max_sz (adjusted_size n) chunksize) dsize)) \<and>
   (mm_init s0 = Some (s, True) \<longrightarrow> unat (mem_brk s) = unat (mem_brk s0) + 16 + 4096)"
proof -
  have 1: "unat (mem_brk s') = unat (mem_brk s) + unat (round_up sz dsize) \<and>
        16 dvd unat (round_up sz dsize) \<and>
        unat sz \<le> unat (round_up sz dsize) \<and> unat (round_up sz dsize) < unat sz + 16"
    if a: "unat sz + 15 < 18446744073709551616" "extend_heap s sz = Some (s', b)"
      "mem_brk s' \<noteq> mem_brk s"
    using extend_heap_moves(2)[OF a(2,3)] round_up16_bounds[OF a(1)]
    by (simp add: dsize_def wsize_def)
  have 2: "(\<exists>s1 b1. extend_heap s (max_sz (adjusted_size n) chunksize) = Some (s1, b1) \<and>
               mem_brk s'' = mem_brk s1) \<and>
      unat (mem_brk s'') =
        unat (mem_brk s) + unat (round_up (max_sz (adjusted_size n) chunksize) dsize) \<and>
      16 dvd unat (round_up (max_sz (adjusted_size n) chunksize) dsize) \<and>
      unat (adjusted_size n) \<le> unat (round_up (max_sz (adjusted_size n) chunksize) dsize) \<and>
      4096 \<le> unat (round_up (max_sz (adjusted_size n) chunksize) dsize)"
    if a: "heap_start s \<noteq> 0" "malloc s n = Some (s'', p)" "mem_brk s'' \<noteq> mem_brk s"
  proof -
    from malloc_extends[OF a] obtain s1 b1 where
      e: "extend_heap s (max_sz (adjusted_size n) chunksize) = Some (s1, b1)"
      and m: "mem_brk s'' = mem_brk s1" by blast
    have ne: "mem_brk s1 \<noteq> mem_brk s" using a(3) m by simp
    have u: "unat (mem_brk s'') =
        unat (mem_brk s) + unat (round_up (max_sz (adjusted_size n) chunksize) dsize)"
      using extend_heap_moves(2)[OF e ne] m by simp
    have d: "16 dvd unat (round_up (max_sz (adjusted_size n) chunksize) dsize)"
      by (simp add: dsize_def wsize_def unat_round_up16)
    have "unat (adjusted_size n) \<le> unat (max_sz (adjusted_size n) chunksize)"
      by (simp add: max_sz_def word_less_nat_alt)
    then have le: "unat (adjusted_size n) \<le>
        unat (round_up (max_sz (adjusted_size n) chunksize) dsize)"
      using extend_size(1)[of n] by simp
    have ge: "4096 \<le> unat (round_up (max_sz (adjusted_size n) chunksize) dsize)"
      using extend_size[of n] by simp
    show ?thesis using e m u d le ge by blast
  qed
  have 3: "unat (mem_brk s) = unat (mem_brk s0) + 16 + 4096" if "mm_init s0 = Some (s, True)"
    using that by (rule mm_init_extends)
  show ?thesis using 1 2 3 by blast
qed

theorem heap_extension_size_witness:
  "\<exists>s' b s'' p.
     extend_heap heap1 5001 = Some (s', b) \<and> mem_brk s' \<noteq> mem_brk heap1 \<and>
     unat (mem_brk s') = unat (mem_brk heap1) + 5008 \<and> round_up 5001 dsize = 5008 \<and>
     heap_start heap1 \<noteq> 0 \<and> malloc heap1 5000 = Some (s'', p) \<and> mem_brk s'' \<noteq> mem_brk heap1 \<and>
     unat (mem_brk s'') = unat (mem_brk heap1) + 5008 \<and>
     mm_init heap0 = Some (heap1, True) \<and> unat (mem_brk heap1) = unat (mem_brk heap0) + 16 + 4096"
proof -
  have e: "\<exists>s' b. extend_heap heap1 5001 = Some (s', b) \<and> mem_brk s' \<noteq> mem_brk heap1"
    by (simp add: eval_simps heap1_def del: eval_dels cong: eval_congs)
  have m: "\<exists>s'' p. malloc heap1 5000 = Some (s'', p) \<and> mem_brk s'' \<noteq> mem_brk heap1"
    by (simp add: eval_simps heap1_def del: eval_dels cong: eval_congs)
  have r: "round_up 5001 dsize = 5008"
    "round_up (max_sz (adjusted_size 5000) chunksize) dsize = 5008"
    by (simp_all add: eval_simps adjusted_size_def del: eval_dels cong: eval_congs)
  have h: "heap_start heap1 \<noteq> 0" by (simp add: heap1_def)
  from e obtain s' b where e': "extend_heap heap1 5001 = Some (s', b)"
    "mem_brk s' \<noteq> mem_brk heap1" by blast
  from m obtain s'' p where m': "malloc heap1 5000 = Some (s'', p)"
    "mem_brk s'' \<noteq> mem_brk heap1" by blast
  show ?thesis
    using heap_extension_size[of 5001 heap1 s' b 5000 s'' p heap0] e' m' r h mm_init_heap0
    by (auto simp: unat_numeral64)
qed


section \<open>The search refines its specification\<close>

lemma first_fit_scan_list:
  "list_from s p bs \<Longrightarrow>
   first_fit_scan s asize p = Some (case find (\<lambda>b. asize \<le> get_size s b) bs of Some b \<Rightarrow> b | None \<Rightarrow> 0)"
proof (induction bs arbitrary: p)
  case Nil
  then show ?case by (simp add: first_fit_scan.simps)
next
  case (Cons b bs)
  then show ?case by (subst first_fit_scan.simps) auto
qed

lemma find_nonzero:
  "list_from s p bs \<Longrightarrow> find P bs = Some b \<Longrightarrow> b \<noteq> 0"
  by (induction bs arbitrary: p) (auto split: if_splits)

lemma best_fit_scan_list:
  "search_count \<le> MAX_SEARCH \<Longrightarrow>
   best_fit_scan s asize p best best_size search_count =
   scan_best (get_size s) asize best best_size (nodes_upto s (MAX_SEARCH - search_count) p)"
proof (induction s asize p best best_size search_count rule: best_fit_scan.induct)
  case (1 s asize block best best_size search_count)
  show ?case
  proof (cases "block \<noteq> 0 \<and> search_count < MAX_SEARCH")
    case True
    then obtain k where k: "MAX_SEARCH - search_count = Suc k" "MAX_SEARCH - (search_count + 1) = k"
      by (cases "MAX_SEARCH - search_count") auto
    from True have le: "search_count + 1 \<le> MAX_SEARCH" by simp
    show ?thesis
      using True 1(1)[OF True _ le] 1(2)[OF True _ le] k
      by (subst best_fit_scan.simps) auto
  next
    case False
    then show ?thesis
      by (subst best_fit_scan.simps) (cases "MAX_SEARCH - search_count"; auto)
  qed
qed

lemma arg_min_list_le_hd: "f (arg_min_list f (x # xs)) \<le> (f x :: 'b :: linorder)"
  using f_arg_min_list_f[of "x # xs" f] by simp

lemma scan_best_started:
  "asize \<le> size_of b \<Longrightarrow>
   scan_best size_of asize b (size_of b) xs = arg_min_list size_of (b # filter (\<lambda>x. asize \<le> size_of x) xs)"
proof (induction xs arbitrary: b)
  case Nil
  then show ?case by simp
next
  case (Cons x xs)
  let ?F = "filter (\<lambda>x. asize \<le> size_of x) xs"
  show ?case
  proof (cases "asize \<le> size_of x")
    case False
    then show ?thesis using Cons by simp
  next
    case fit: True
    show ?thesis
    proof (cases "size_of x < size_of b")
      case True
      have "size_of (arg_min_list size_of (x # ?F)) \<le> size_of x" by (rule arg_min_list_le_hd)
      with True have "\<not> size_of b \<le> size_of (arg_min_list size_of (x # ?F))" by simp
      then have "arg_min_list size_of (b # x # ?F) = arg_min_list size_of (x # ?F)"
        by (simp add: Let_def)
      then show ?thesis using Cons.IH[OF fit] fit True by simp
    next
      case False
      then have le: "size_of b \<le> size_of x" by simp
      have "arg_min_list size_of (b # x # ?F) = arg_min_list size_of (b # ?F)"
      proof (cases ?F)
        case Nil
        then show ?thesis using le by simp
      next
        case (Cons y ys)
        then show ?thesis using le by (auto simp: Let_def)
      qed
      then show ?thesis using Cons.IH[OF Cons.prems] fit False by simp
    qed
  qed
qed

lemma scan_best_initial:
  "(\<And>x. size_of x < top_size) \<Longrightarrow>
   scan_best size_of asize 0 top_size xs =
     (case bounded_best size_of asize xs of Some b \<Rightarrow> b | None \<Rightarrow> 0)"
proof (induction xs)
  case Nil
  then show ?case by (simp add: bounded_best_def)
next
  case (Cons x xs)
  then show ?case
    by (auto simp: bounded_best_def scan_best_started)
qed

lemma get_size_lt_max: "get_size s b < SIZE_MAX"
proof -
  have "load64 (mem s) b AND NOT 15 \<le> NOT 15" by (rule word_and_le1)
  then show ?thesis by (simp add: get_size_def extract_size_def size_mask_def SIZE_MAX_def) unat_arith
qed

lemma nodes_upto_nonzero: "b \<in> set (nodes_upto s k p) \<Longrightarrow> b \<noteq> 0"
  by (induction k arbitrary: p) (auto split: if_splits)

lemma bounded_best_in: "bounded_best size_of asize bs = Some b \<Longrightarrow> b \<in> set bs"
proof -
  assume a: "bounded_best size_of asize bs = Some b"
  let ?F = "filter (\<lambda>b. asize \<le> size_of b) bs"
  from a have "?F \<noteq> []" "b = arg_min_list size_of ?F"
    by (auto simp: bounded_best_def Let_def split: if_splits)
  then have "b \<in> set ?F" using arg_min_list_in[of ?F size_of] by simp
  then show ?thesis by simp
qed

lemma bounded_best_smallest:
  assumes "bounded_best size_of asize bs = Some b"
  shows "b \<in> set bs \<and> asize \<le> size_of b \<and> (\<forall>c \<in> set bs. asize \<le> size_of c \<longrightarrow> size_of b \<le> size_of c)"
proof -
  let ?F = "filter (\<lambda>b. asize \<le> size_of b) bs"
  from assms have F: "?F \<noteq> []" "b = arg_min_list size_of ?F"
    by (auto simp: bounded_best_def Let_def split: if_splits)
  then have "b \<in> set ?F" using arg_min_list_in[of ?F size_of] by simp
  moreover have "size_of b = Min (size_of ` set ?F)" using F f_arg_min_list_f[of ?F size_of] by simp
  ultimately show ?thesis by auto
qed

lemma higher_classes_list:
  "higher_classes s asize i =
     (case first_some (\<lambda>c. bounded_best (get_size s) asize (nodes_upto s MAX_SEARCH (size_class s c)))
             [i ..< NUM_CLASSES] of
        Some b \<Rightarrow> b | None \<Rightarrow> 0)"
proof (induction s asize i rule: higher_classes.induct)
  case (1 s asize i)
  let ?bb = "bounded_best (get_size s) asize (nodes_upto s MAX_SEARCH (size_class s i))"
  have scan: "best_fit_scan s asize (size_class s i) 0 SIZE_MAX 0 = (case ?bb of Some b \<Rightarrow> b | None \<Rightarrow> 0)"
    using best_fit_scan_list[of 0 s asize "size_class s i" 0 SIZE_MAX]
    by (simp add: scan_best_initial get_size_lt_max)
  show ?case
  proof (cases "i < NUM_CLASSES")
    case False
    then show ?thesis by (subst higher_classes.simps) simp
  next
    case True
    then have up: "[i ..< NUM_CLASSES] = i # [i + 1 ..< NUM_CLASSES]" by (simp add: upt_conv_Cons)
    show ?thesis
    proof (cases ?bb)
      case None
      then show ?thesis
        using True 1[OF True] scan up by (subst higher_classes.simps) simp
    next
      case (Some b)
      then have "b \<noteq> 0" using bounded_best_in nodes_upto_nonzero by blast
      then show ?thesis
        using True Some scan up by (subst higher_classes.simps) simp
    qed
  qed
qed

text \<open>
  Claim C4: \<^verbatim>\<open>find_fit(asize)\<close> returns the head of the mini list when \<open>asize \<le> 16\<close> and that
  list is not empty; otherwise the first block of size at least \<open>asize\<close> in the list of the
  class of \<open>asize\<close>, scanned from the front; otherwise, going through the higher classes in
  turn and looking at no more than 10 blocks of each, the smallest block of size at least
  \<open>asize\<close> among those looked at, from the first class that has one; otherwise null.
  The list of the class of \<open>asize\<close> is assumed to end (\<open>list_from\<close>); then \<^verbatim>\<open>find_fit\<close>
  returns, and what it returns is \<open>find_fit_spec\<close> of the lists in memory. By
  \<open>bounded_best_smallest\<close> the block chosen in a higher class is among the examined ones,
  is large enough, and no examined block that is large enough is smaller.
\<close>

theorem find_fit_refines:
  assumes "list_from s (size_class s (size_to_class asize)) own"
  shows "find_fit s asize =
         Some (find_fit_spec (mini_block_head s) (get_size s) own
                 (\<lambda>c. nodes_upto s 10 (size_class s c)) asize)"
proof (cases "asize \<le> 16 \<and> mini_block_head s \<noteq> 0")
  case True
  then show ?thesis by (simp add: find_fit_def find_fit_spec_def mb_block_size_def)
next
  case False
  let ?c = "size_to_class asize"
  have ff: "(if size_class s ?c \<noteq> 0 then first_fit_scan s asize (size_class s ?c) else Some 0)
     = Some (case find (\<lambda>b. asize \<le> get_size s b) own of Some b \<Rightarrow> b | None \<Rightarrow> 0)"
  proof (cases "size_class s ?c = 0")
    case True
    with assms have "own = []" by (cases own) auto
    with True show ?thesis by simp
  next
    case False
    then show ?thesis using first_fit_scan_list[OF assms] by simp
  qed
  show ?thesis
  proof (cases "find (\<lambda>b. asize \<le> get_size s b) own")
    case None
    then show ?thesis
      using False ff
      by (auto simp: find_fit_def find_fit_spec_def mb_block_size_def Let_def higher_classes_list
                    MAX_SEARCH_def NUM_CLASSES_def)
  next
    case (Some b)
    then have "b \<noteq> 0" using find_nonzero[OF assms] by blast
    then show ?thesis
      using False ff Some
      by (auto simp: find_fit_def find_fit_spec_def mb_block_size_def Let_def)
  qed
qed

lemma nodes_upto_numeral:
  "nodes_upto s (numeral k) p =
     (if p = 0 then [] else p # nodes_upto s (pred_numeral k) (next_of s p))"
  by (simp add: numeral_eq_Suc)

text \<open>
  The theorem at work on \<open>heap3\<close>: a request of 16 bytes is served by the head of the mini
  list; a request of 64 bytes by the second block of its class, the first being too small;
  a request of 96 bytes finds its class without a fit and gets from class 3 the first of
  the two blocks of 160 bytes among the ten blocks examined, although the eleventh block
  has 144 bytes; a request of 4096 bytes gets null.
\<close>

theorem find_fit_refines_witness:
  "list_from heap3 (size_class heap3 (size_to_class 16)) [] \<and>
   find_fit heap3 16 = Some 0x3000 \<and>
   list_from heap3 (size_class heap3 (size_to_class 64)) [0x3100, 0x3200] \<and>
   find_fit heap3 64 = Some 0x3200 \<and>
   list_from heap3 (size_class heap3 (size_to_class 96)) [0x3300] \<and>
   nodes_upto heap3 10 (size_class heap3 3) =
     [0x4000, 0x4100, 0x4200, 0x4300, 0x4400, 0x4500, 0x4600, 0x4700, 0x4800, 0x4900] \<and>
   get_size heap3 0x4300 = 160 \<and> get_size heap3 0x4600 = 160 \<and>
   next_of heap3 0x4900 = 0x4A00 \<and> get_size heap3 0x4A00 = 144 \<and>
   find_fit heap3 96 = Some 0x4300 \<and>
   list_from heap3 (size_class heap3 (size_to_class 4096)) [] \<and>
   find_fit heap3 4096 = Some 0"
proof -
  let ?ex = "\<lambda>c. nodes_upto heap3 10 (size_class heap3 c)"
  have sz: "get_size heap3 0x3000 = 16" "get_size heap3 0x3100 = 48" "get_size heap3 0x3200 = 64"
    "get_size heap3 0x3300 = 80" "get_size heap3 0x4000 = 256" "get_size heap3 0x4100 = 240"
    "get_size heap3 0x4200 = 176" "get_size heap3 0x4300 = 160" "get_size heap3 0x4400 = 208"
    "get_size heap3 0x4500 = 192" "get_size heap3 0x4600 = 160" "get_size heap3 0x4700 = 224"
    "get_size heap3 0x4800 = 176" "get_size heap3 0x4900 = 256" "get_size heap3 0x4A00 = 144"
    "get_size heap3 0x4B00 = 160"
    by (simp_all add: eval_simps heap3_def del: eval_dels cong: eval_congs)
  have nx: "next_of heap3 0x3000 = 0x0" "next_of heap3 0x3100 = 0x3200" "next_of heap3 0x3200 = 0x0"
    "next_of heap3 0x3300 = 0x0" "next_of heap3 0x4000 = 0x4100" "next_of heap3 0x4100 =
    0x4200" "next_of heap3 0x4200 = 0x4300" "next_of heap3 0x4300 = 0x4400" "next_of heap3
    0x4400 = 0x4500" "next_of heap3 0x4500 = 0x4600" "next_of heap3 0x4600 = 0x4700" "next_of
    heap3 0x4700 = 0x4800" "next_of heap3 0x4800 = 0x4900" "next_of heap3 0x4900 = 0x4A00"
    "next_of heap3 0x4A00 = 0x4B00" "next_of heap3 0x4B00 = 0x0"
    by (simp_all add: eval_simps heap3_def del: eval_dels cong: eval_congs)
  have hd: "size_class heap3 = (\<lambda>_. 0)(1 := 0x3100, 2 := 0x3300, 3 := 0x4000)"
    "mini_block_head heap3 = 0x3000"
    by (simp_all add: heap3_def)
  note ev = sz nx hd size_to_class_def find_fit_spec_def bounded_best_def nodes_upto_numeral
    w64_numeral_eq w64_numeral_le w64_numeral_less
  have l1: "list_from heap3 (size_class heap3 (size_to_class 16)) []"
    and l2: "list_from heap3 (size_class heap3 (size_to_class 64)) [0x3100, 0x3200]"
    and l3: "list_from heap3 (size_class heap3 (size_to_class 96)) [0x3300]"
    and l4: "list_from heap3 (size_class heap3 (size_to_class 4096)) []"
    by (simp_all add: ev del: eval_dels)
  have n: "nodes_upto heap3 10 (size_class heap3 3) =
     [0x4000, 0x4100, 0x4200, 0x4300, 0x4400, 0x4500, 0x4600, 0x4700, 0x4800, 0x4900]"
    by (simp add: ev del: eval_dels)
  have v1: "find_fit_spec (mini_block_head heap3) (get_size heap3) [] ?ex 16 = 0x3000"
    by (simp add: ev del: eval_dels)
  have v2: "find_fit_spec (mini_block_head heap3) (get_size heap3) [0x3100, 0x3200] ?ex 64
      = 0x3200"
    by (simp add: ev del: eval_dels)
  have v3: "find_fit_spec (mini_block_head heap3) (get_size heap3) [0x3300] ?ex 96 = 0x4300"
    by (simp add: ev del: eval_dels)
  have v4: "find_fit_spec (mini_block_head heap3) (get_size heap3) [] ?ex 4096 = 0"
    by (simp add: ev del: eval_dels)
  show ?thesis
    using find_fit_refines[OF l1] find_fit_refines[OF l2] find_fit_refines[OF l3]
      find_fit_refines[OF l4] l1 l2 l3 l4 n v1 v2 v3 v4 sz nx
    by simp
qed


section \<open>The heap checker\<close>

lemma get_size_and15: "get_size s b AND 15 = 0"
  by (simp add: get_size_def extract_size_def size_mask_def word_bw_assocs)

lemma get_size_dvd: "16 dvd unat (get_size s b)"
proof -
  have "get_size s b AND mask 4 = 0" using get_size_and15[of s b] by (simp add: mask_eq_exp_minus_1)
  then have "2 ^ 4 dvd unat (get_size s b)" by (simp only: and_mask_dvd_nat)
  then show ?thesis by simp
qed












lemma mm_init_heap6:
  "mm_init (heap0\<lparr>mem_heap := 0x1008, mem_brk := 0x1008\<rparr>) = Some (heap6, True)"
  by (simp add: eval_simps heap6_def del: eval_dels cong: eval_congs) auto









section \<open>Coalescing\<close>

lemma al8_dvd: "al8 a = (8 dvd unat a)"
proof -
  have "(a AND mask 3 = 0) = (2 ^ 3 dvd unat a)" by (simp only: and_mask_dvd_nat)
  then show ?thesis by (simp add: al8_def mask_eq_exp_minus_1)
qed

lemma unat_add_if: "unat ((a :: 64 word) + b) = (if unat a + unat b < 18446744073709551616 then unat a + unat b else unat a + unat b - 18446744073709551616)"
  using unat_add_lem[of a b] unat_plus_if'[of a b] by (auto simp: )

lemma al8_add: "al8 a \<Longrightarrow> al8 b \<Longrightarrow> al8 (a + b)"
  unfolding al8_dvd unat_add_if
  by (auto simp: dvd_diff_nat)


lemma al8_num [simp]: "al8 8" "al8 16" "al8 0"
  by (simp_all add: al8_def)

lemma al8_get_size [simp]: "al8 (get_size s b)"
  using get_size_dvd[of s b] by (auto simp: al8_dvd elim!: dvdE)

lemma chain_le: "chain s a bs e \<Longrightarrow> unat a \<le> unat e"
  by (induction bs arbitrary: a) auto






lemma chain_cong:
  "(\<And>b. b \<in> set bs \<Longrightarrow> get_size s' b = get_size s b) \<Longrightarrow> chain s' a bs e = chain s a bs e"
  by (induction bs arbitrary: a) auto









lemma byte_frame:
  assumes "only_at W m m'" "unat x < lo"
    "\<And>w. w \<in> W \<Longrightarrow> lo \<le> unat w \<and> unat w + 8 \<le> 18446744073709551616"
  shows "m' x = m x"
proof -
  have "\<forall>w\<in>W. 8 \<le> x - w"
  proof
    fix w assume "w \<in> W"
    with assms(3) have "lo \<le> unat w" "unat w + 8 \<le> 18446744073709551616" by auto
    with assms(2) have "8 \<le> unat (x - w)" by (simp add: unat_sub64)
    then show "8 \<le> x - w" by (simp add: word_le_nat_alt)
  qed
  with assms(1) show ?thesis by (simp add: only_at_def)
qed

lemma bit_w2: "bit (2 :: int) n = (n = 1)"
  using bit_exp_iff[where 'a=int, of 1 n] by auto

lemma bit_w4: "bit (4 :: int) n = (n = 2)"
  using bit_exp_iff[where 'a=int, of 2 n] by auto

lemma extract_size_flags [simp]:
  "extract_size (h AND NOT prev_alloc_mask) = extract_size h"
  "extract_size (h AND NOT prev_mini_mask) = extract_size h"
  "extract_size (h OR prev_mini_mask) = extract_size h"
proof -
  have "(h AND NOT (push_bit 1 1)) AND NOT (mask 4) = h AND NOT (mask 4)"
    "(h AND NOT (push_bit 2 1)) AND NOT (mask 4) = h AND NOT (mask 4)"
    "(h OR push_bit 2 1) AND NOT (mask 4) = h AND NOT (mask 4)"
    by (rule bit_word_eqI, auto simp: bit_simps bit_w2 bit_w4)+
  then show "extract_size (h AND NOT prev_alloc_mask) = extract_size h"
  "extract_size (h AND NOT prev_mini_mask) = extract_size h"
  "extract_size (h OR prev_mini_mask) = extract_size h"
    by (simp_all add: extract_size_def size_mask_def mask_eq_exp_minus_1 prev_alloc_mask_def
        prev_mini_mask_def)
qed

lemma extract_alloc_flags [simp]:
  "extract_alloc (h AND NOT prev_alloc_mask) = extract_alloc h"
  "extract_alloc (h AND NOT prev_mini_mask) = extract_alloc h"
  "extract_alloc (h OR prev_mini_mask) = extract_alloc h"
proof -
  have "(h AND NOT (push_bit 1 1)) AND mask 1 = h AND mask 1"
    "(h AND NOT (push_bit 2 1)) AND mask 1 = h AND mask 1"
    "(h OR push_bit 2 1) AND mask 1 = h AND mask 1"
    by (rule bit_word_eqI, auto simp: bit_simps bit_w2 bit_w4)+
  then show "extract_alloc (h AND NOT prev_alloc_mask) = extract_alloc h"
  "extract_alloc (h AND NOT prev_mini_mask) = extract_alloc h"
  "extract_alloc (h OR prev_mini_mask) = extract_alloc h"
    by (simp_all add: extract_alloc_def alloc_mask_def mask_eq_exp_minus_1 prev_alloc_mask_def
        prev_mini_mask_def)
qed

lemma hdr_prev_alloc_bit: "hdr_prev_alloc h = bit h 1"
  unfolding hdr_prev_alloc_def
  by (simp add: bit_iff_odd_drop_bit and_one_eq mod_2_eq_odd)

lemma hdr_prev_mini_bit: "hdr_prev_mini h = bit h 2"
  unfolding hdr_prev_mini_def
  by (simp add: bit_iff_odd_drop_bit and_one_eq mod_2_eq_odd)

lemma hdr_flags [simp]:
  "\<not> hdr_prev_alloc (h AND NOT prev_alloc_mask)"
  "hdr_prev_alloc (h AND NOT prev_mini_mask) = hdr_prev_alloc h"
  "hdr_prev_alloc (h OR prev_mini_mask) = hdr_prev_alloc h"
  "\<not> hdr_prev_mini (h AND NOT prev_mini_mask)"
  "hdr_prev_mini (h OR prev_mini_mask)"
proof -
  have "\<not> bit (h AND NOT (push_bit 1 1)) 1"
    "bit (h AND NOT (push_bit 2 1)) 1 = bit h 1"
    "bit (h OR push_bit 2 1) 1 = bit h 1"
    "\<not> bit (h AND NOT (push_bit 2 1)) 2"
    "bit (h OR push_bit 2 1) 2"
    by (auto simp: bit_simps bit_w2 bit_w4)
  then show "\<not> hdr_prev_alloc (h AND NOT prev_alloc_mask)"
  "hdr_prev_alloc (h AND NOT prev_mini_mask) = hdr_prev_alloc h"
  "hdr_prev_alloc (h OR prev_mini_mask) = hdr_prev_alloc h"
  "\<not> hdr_prev_mini (h AND NOT prev_mini_mask)"
  "hdr_prev_mini (h OR prev_mini_mask)"
    by (simp_all add: hdr_prev_alloc_bit hdr_prev_mini_bit prev_alloc_mask_def
        prev_mini_mask_def)
qed



lemma get_prev_alloc_hdr: "get_prev_alloc s b = hdr_prev_alloc (load64 (mem s) b)"
  by (simp add: get_prev_alloc_def hdr_prev_alloc_def)

lemma get_prev_mini_hdr: "get_prev_mini s b = hdr_prev_mini (load64 (mem s) b)"
  by (simp add: get_prev_mini_def hdr_prev_mini_def)

lemmas get_hdr = get_prev_alloc_hdr get_prev_mini_hdr get_size_def get_alloc_def




lemma footer_addr: "b + 8 + sz - 16 = b + sz - (8 :: 64 word)"
  by simp


lemma mem_only_refl [simp]: "mem_only s s"
  by (simp add: mem_only_def)

lemma mem_only_upd [simp]: "mem_only s (s\<lparr>mem := m\<rparr>)"
  by (simp add: mem_only_def)























lemma al8_off [simp]: "al8 n \<Longrightarrow> al8 (n + 8)" "al8 n \<Longrightarrow> al8 (n + 16)"
  by (auto intro: al8_add)







































section \<open>Zeroed allocation\<close>

















section \<open>Requests whose size wraps around\<close>

text \<open>
  \<^verbatim>\<open>malloc\<close> computes \<^verbatim>\<open>round_up(size + wsize, dsize)\<close> in 64-bit arithmetic without a guard.
  For a request of \<^verbatim>\<open>SIZE_MAX\<close> bytes the sum wraps to 7, the adjusted size is 32, and the
  request is served from a 32-byte block. The four theorems below run the code on the
  heap that \<^verbatim>\<open>mm_init\<close> builds from \<open>heap0\<close>.
\<close>

text \<open>
  Claim C1 (for every n \<ge> 1, a non-null result of allocate(n) is 16-byte aligned and its
  block has at least n bytes of payload). On the initialised heap \<^verbatim>\<open>malloc(SIZE_MAX)\<close>
  returns the aligned, non-null pointer 0x1010; its block is allocated and has 32 bytes,
  so 24 bytes of payload instead of \<^verbatim>\<open>SIZE_MAX\<close>.
\<close>

theorem malloc_SIZE_MAX_payload:
  "do {(s, ok) \<leftarrow> mm_init heap0;
       (s', p) \<leftarrow> malloc s SIZE_MAX;
       Some (ok, p, p AND 15, get_alloc s' (payload_to_header p),
             get_size s' (payload_to_header p) - wsize)}
   = Some (True, 0x1010, 0, True, 24)"
  by (simp add: eval_simps del: eval_dels cong: eval_congs)

text \<open>
  Claim C2 (allocate(SIZE_MAX) returns null and leaves the allocator state unchanged). On
  the initialised heap \<^verbatim>\<open>malloc(SIZE_MAX)\<close> returns 0x1010, not null, and changes the state:
  the head of size class 7 moves from the block at 0x1008 to the remainder at 0x1028, and
  the header at 0x1008 changes from a free block of 4096 bytes to an allocated block of 32.
\<close>

theorem malloc_SIZE_MAX_not_null:
  "do {(s, ok) \<leftarrow> mm_init heap0;
       (s', p) \<leftarrow> malloc s SIZE_MAX;
       Some (p, size_class s 7, size_class s' 7, load64 (mem s) 0x1008, load64 (mem s') 0x1008)}
   = Some (0x1010, 0x1008, 0x1028, pack 4096 False True False, pack 32 True True False)"
  by (simp add: eval_simps del: eval_dels cong: eval_congs)

text \<open>
  Claim C3 (between public calls, prev_alloc(B) = alloc(A) for every block A and its
  successor B). After \<^verbatim>\<open>p = malloc(100); q = realloc(p, SIZE_MAX)\<close> on the initialised heap
  the new block A at 0x1078 is allocated and has 32 bytes, \<^verbatim>\<open>realloc\<close> has copied the 104
  payload bytes of \<open>p\<close> over its 24-byte payload and over the header of its successor B at
  0x1098, and the prev_alloc bit of B is clear although A is allocated.
\<close>

theorem realloc_SIZE_MAX_breaks_flags:
  "do {(s, ok) \<leftarrow> mm_init heap0;
       (s1, p) \<leftarrow> malloc s 100;
       (s2, q) \<leftarrow> realloc s1 p SIZE_MAX;
       Some (p, q, get_size s2 (payload_to_header q), get_alloc s2 (payload_to_header q),
             find_next s2 (payload_to_header q),
             get_prev_alloc s2 (find_next s2 (payload_to_header q)))}
   = Some (0x1010, 0x1080, 32, True, 0x1098, False)"
  by (simp add: eval_simps del: eval_dels cong: eval_congs)

text \<open>
  Claim C6 (reallocate(p, n) returns null or a pointer whose first min(n, old payload size)
  bytes equal the old payload of p). After \<^verbatim>\<open>p = malloc(2040); q = realloc(p, SIZE_MAX)\<close> on
  the initialised heap the old block is allocated with 2040 bytes of payload, the eight
  bytes at \<open>p + 40\<close> are zero before the call, \<open>q\<close> is not null, and the eight bytes at
  \<open>q + 40\<close> hold the address 0x1008 afterwards: \<^verbatim>\<open>free(p)\<close> has written a list pointer into
  the free block that the copy had overrun.
\<close>

theorem realloc_SIZE_MAX_loses_payload:
  "do {(s, ok) \<leftarrow> mm_init heap0;
       (s1, p) \<leftarrow> malloc s 2040;
       (s2, q) \<leftarrow> realloc s1 p SIZE_MAX;
       Some (p, q, get_alloc s1 (payload_to_header p), get_payload_size s1 (payload_to_header p),
             load64 (mem s1) (p + 40), load64 (mem s2) (q + 40))}
   = Some (0x1010, 0x1810, True, 2040, 0, 0x1008)"
  by (simp add: eval_simps del: eval_dels cong: eval_congs)

end
